theory Spec2Isabelle
  imports Main
begin

section \<open>Python values and text\<close>

text \<open>
  Python text (\<^verbatim>\<open>str\<close>) is modelled as a \<^typ>\<open>string\<close> holding its UTF-8 encoding, one
  \<^typ>\<open>char\<close> per byte. Every string operation of the program (\<^verbatim>\<open>startswith\<close>, slicing
  off the six ASCII characters of the prefix, comparison, concatenation and replacing the
  ASCII line feed) acts on the encoding exactly as it acts on the text.

  The values \<^verbatim>\<open>json.loads\<close> produces are the Python values \<^verbatim>\<open>None\<close>, booleans, integers,
  floats, strings, lists and dictionaries. A dictionary is an association list with at most
  one binding per key, in insertion order.
\<close>

datatype pyfloat =
    Decimal int int   \<comment> \<open>\<open>Decimal m e\<close>: the double nearest to \<open>m * 10 ^ e\<close>\<close>
  | PosInf
  | NegInf
  | NaN

datatype json =
    JNull                           \<comment> \<open>\<^verbatim>\<open>None\<close>\<close>
  | JBool bool
  | JInt int
  | JFloat pyfloat
  | JStr string
  | JArr "json list"
  | JObj "(string \<times> json) list"

datatype error =
    AttributeError
  | KeyError
  | IndexError
  | TypeError
  | UnicodeDecodeError
  | JSONDecodeError
  | RecursionError
  | ValueError
  | MarkupError

text \<open>
  What the program takes from the Python installation it runs on. Of the interpreter: the
  number of nested JSON containers the decoder may still enter before the recursion limit
  is hit, and the limit on the digits of an integer literal (\<^verbatim>\<open>sys.get_int_max_str_digits()\<close>,
  where \<open>0\<close> is no limit). Of the \<^verbatim>\<open>rich\<close> library: the normal form of a style name
  (\<^verbatim>\<open>Style.normalize\<close>), and whether the parameters of a meta tag evaluate.
\<close>

record runtime =
  nesting_limit :: nat
  max_str_digits :: nat
  normalize :: "string \<Rightarrow> string"
  meta_ok :: "string \<Rightarrow> bool"

text \<open>
  A decimal literal converts to the float zero exactly when its magnitude is at most
  \<open>2 ^ -1075\<close>, half of the smallest positive double (the tie rounds to even, which is zero).
\<close>

definition float_is_zero :: "pyfloat \<Rightarrow> bool" where
  "float_is_zero f =
     (case f of
        Decimal m e \<Rightarrow>
          (if m = 0 then True
           else if 0 \<le> e then False
           else \<bar>m\<bar> * 2 ^ 1075 \<le> 10 ^ nat (- e))
      | _ \<Rightarrow> False)"

text \<open>Python truth value testing, as used by \<^verbatim>\<open>not x\<close> and \<^verbatim>\<open>x or y\<close>.\<close>

definition truthy :: "json \<Rightarrow> bool" where
  "truthy v =
     (case v of
        JNull \<Rightarrow> False
      | JBool b \<Rightarrow> b
      | JInt n \<Rightarrow> n \<noteq> 0
      | JFloat f \<Rightarrow> \<not> float_is_zero f
      | JStr s \<Rightarrow> s \<noteq> []
      | JArr xs \<Rightarrow> xs \<noteq> []
      | JObj kvs \<Rightarrow> kvs \<noteq> [])"

text \<open>\<^verbatim>\<open>d[k] = v\<close> on a dictionary: an existing key keeps its position.\<close>

fun dict_set :: "(string \<times> json) list \<Rightarrow> string \<Rightarrow> json \<Rightarrow> (string \<times> json) list" where
  "dict_set [] k v = [(k, v)]"
| "dict_set ((k', v') # kvs) k v =
     (if k' = k then (k, v) # kvs else (k', v') # dict_set kvs k v)"

text \<open>\<^verbatim>\<open>s.startswith(p)\<close>.\<close>

definition startswith :: "string \<Rightarrow> string \<Rightarrow> bool" where
  "startswith s p = (take (length p) s = p)"

text \<open>\<^verbatim>\<open>s.replace("\n", "\n> ")\<close>: every line feed is followed by the quote prefix.\<close>

definition replace_newline :: "string \<Rightarrow> string" where
  "replace_newline s =
     concat (map (\<lambda>c. if c = CHR ''\<newline>'' then ''\<newline>> '' else [c]) s)"

section \<open>The JSON decoder\<close>

text \<open>
  \<^verbatim>\<open>json.loads\<close> belongs to the Python standard library. It is modelled here after the
  grammar the library accepts: white space is space, tab, line feed and carriage return; the
  literals are \<^verbatim>\<open>null\<close>, \<^verbatim>\<open>true\<close>, \<^verbatim>\<open>false\<close>, \<^verbatim>\<open>NaN\<close>, \<^verbatim>\<open>Infinity\<close> and \<^verbatim>\<open>-Infinity\<close>; a number
  is an integer unless it has a fraction or an exponent; strings are strict (no raw control
  characters) with the escapes of RFC 8259; a repeated key keeps its last value; anything
  but white space after the value is an error. A text the grammar rejects raises
  \<^verbatim>\<open>JSONDecodeError\<close>. Two limits of the interpreter raise other exceptions: entering a
  container beyond the nesting the interpreter allows raises \<^verbatim>\<open>RecursionError\<close>, and an
  integer literal with more digits than the interpreter converts raises \<^verbatim>\<open>ValueError\<close>. The
  decoder reads from left to right, so the first of these that it meets is the one raised.
\<close>

definition is_ws :: "char \<Rightarrow> bool" where
  "is_ws c = (c = CHR '' '' \<or> c = CHR 0x09 \<or> c = CHR 0x0A \<or> c = CHR 0x0D)"

definition skip_ws :: "string \<Rightarrow> string" where
  "skip_ws s = dropWhile is_ws s"

definition is_digit :: "char \<Rightarrow> bool" where
  "is_digit c = (48 \<le> (of_char c :: nat) \<and> (of_char c :: nat) \<le> 57)"

definition digits_val :: "string \<Rightarrow> nat" where
  "digits_val ds = foldl (\<lambda>a c. 10 * a + (of_char c - 48)) 0 ds"

definition hex_val :: "char \<Rightarrow> nat option" where
  "hex_val c =
     (let x = (of_char c :: nat) in
      if 48 \<le> x \<and> x \<le> 57 then Some (x - 48)
      else if 97 \<le> x \<and> x \<le> 102 then Some (x - 87)
      else if 65 \<le> x \<and> x \<le> 70 then Some (x - 55)
      else None)"

definition hex4 :: "char \<Rightarrow> char \<Rightarrow> char \<Rightarrow> char \<Rightarrow> nat option" where
  "hex4 a b c d =
     (case (hex_val a, hex_val b, hex_val c, hex_val d) of
        (Some x, Some y, Some z, Some w) \<Rightarrow> Some (4096 * x + 256 * y + 16 * z + w)
      | _ \<Rightarrow> None)"

text \<open>The UTF-8 encoding of a code point (a lone surrogate takes three bytes).\<close>

definition utf8_encode :: "nat \<Rightarrow> string" where
  "utf8_encode cp =
     (if cp < 0x80 then [char_of cp]
      else if cp < 0x800 then
        [char_of (0xC0 + cp div 64), char_of (0x80 + cp mod 64)]
      else if cp < 0x10000 then
        [char_of (0xE0 + cp div 4096), char_of (0x80 + (cp div 64) mod 64),
         char_of (0x80 + cp mod 64)]
      else
        [char_of (0xF0 + cp div 262144), char_of (0x80 + (cp div 4096) mod 64),
         char_of (0x80 + (cp div 64) mod 64), char_of (0x80 + cp mod 64)])"

text \<open>
  The body of a string literal, after the opening quote: plain bytes and the code units of
  \<^verbatim>\<open>\uXXXX\<close> escapes, up to the closing quote.
\<close>

datatype code_unit = Byte char | Esc nat

definition escape_char :: "char \<Rightarrow> char option" where
  "escape_char e =
     (if e = CHR 0x22 then Some (CHR 0x22)
      else if e = CHR 0x5C then Some (CHR 0x5C)
      else if e = CHR ''/'' then Some (CHR ''/'')
      else if e = CHR ''b'' then Some (CHR 0x08)
      else if e = CHR ''f'' then Some (CHR 0x0C)
      else if e = CHR ''n'' then Some (CHR 0x0A)
      else if e = CHR ''r'' then Some (CHR 0x0D)
      else if e = CHR ''t'' then Some (CHR 0x09)
      else None)"

fun scan_units :: "string \<Rightarrow> (code_unit list \<times> string) option" where
  "scan_units [] = None"
| "scan_units (c # s) =
     (if c = CHR 0x22 then Some ([], s)
      else if c = CHR 0x5C then
        (case s of
           [] \<Rightarrow> None
         | e # t \<Rightarrow>
             if e = CHR ''u'' then
               (case t of
                  a # b # c' # d # t' \<Rightarrow>
                    (case hex4 a b c' d of
                       None \<Rightarrow> None
                     | Some cp \<Rightarrow>
                         (case scan_units t' of
                            None \<Rightarrow> None
                          | Some (us, rest) \<Rightarrow> Some (Esc cp # us, rest)))
                | _ \<Rightarrow> None)
             else
               (case escape_char e of
                  None \<Rightarrow> None
                | Some x \<Rightarrow>
                    (case scan_units t of
                       None \<Rightarrow> None
                     | Some (us, rest) \<Rightarrow> Some (Byte x # us, rest))))
      else if (of_char c :: nat) < 0x20 then None
      else
        (case scan_units s of
           None \<Rightarrow> None
         | Some (us, rest) \<Rightarrow> Some (Byte c # us, rest)))"

text \<open>An escaped high surrogate directly followed by an escaped low surrogate is one code point.\<close>

fun join_units :: "code_unit list \<Rightarrow> string" where
  "join_units [] = []"
| "join_units (Byte c # us) = c # join_units us"
| "join_units [Esc x] = utf8_encode x"
| "join_units (Esc x # Byte c # us) = utf8_encode x @ c # join_units us"
| "join_units (Esc x # Esc y # us) =
     (if 0xD800 \<le> x \<and> x \<le> 0xDBFF \<and> 0xDC00 \<le> y \<and> y \<le> 0xDFFF
      then utf8_encode (0x10000 + (x - 0xD800) * 1024 + (y - 0xDC00)) @ join_units us
      else utf8_encode x @ join_units (Esc y # us))"

definition scanstring :: "string \<Rightarrow> (string \<times> string) option" where
  "scanstring s =
     (case scan_units s of
        None \<Rightarrow> None
      | Some (us, rest) \<Rightarrow> Some (join_units us, rest))"

text \<open>
  A number: an optional minus sign, \<^verbatim>\<open>0\<close> or a digit sequence without leading zero, then a
  fraction if a dot is followed by a digit, then an exponent if \<^verbatim>\<open>e\<close> or \<^verbatim>\<open>E\<close> is followed by
  an optional sign and a digit. What does not fit is left in the rest. An integer literal of
  more than \<open>lim\<close> digits is refused when a limit is set (the interpreter checks literals of
  more than 640 digits only).
\<close>

definition scan_exp :: "string \<Rightarrow> (int \<times> string) option" where
  "scan_exp s =
     (case s of
        [] \<Rightarrow> None
      | c # t \<Rightarrow>
          if c = CHR ''e'' \<or> c = CHR ''E'' then
            (let neg = (t \<noteq> [] \<and> hd t = CHR ''-'');
                 t1 = (if t \<noteq> [] \<and> (hd t = CHR ''-'' \<or> hd t = CHR ''+'') then tl t else t);
                 ds = takeWhile is_digit t1
             in if ds = [] then None
                else Some ((if neg then - int (digits_val ds) else int (digits_val ds)),
                           drop (length ds) t1))
          else None)"

definition scan_number :: "nat \<Rightarrow> string \<Rightarrow> error + (json \<times> string)" where
  "scan_number lim s =
     (let neg = (s \<noteq> [] \<and> hd s = CHR ''-'');
          s1 = (if neg then tl s else s);
          ip = (case s1 of
                  [] \<Rightarrow> []
                | c # t \<Rightarrow> if c = CHR ''0'' then [c] else takeWhile is_digit s1)
      in if ip = [] then Inl JSONDecodeError
         else
           (let s2 = drop (length ip) s1;
                fp = (case s2 of
                        [] \<Rightarrow> []
                      | c # t \<Rightarrow> if c = CHR ''.'' then takeWhile is_digit t else []);
                s3 = (if fp = [] then s2 else drop (Suc (length fp)) s2);
                ex = scan_exp s3;
                s4 = (case ex of None \<Rightarrow> s3 | Some (_, r) \<Rightarrow> r);
                sg = (if neg then - 1 else 1 :: int)
            in if fp = [] \<and> ex = None then
                 (if 640 < length ip \<and> 0 < lim \<and> lim < length ip then Inl ValueError
                  else Inr (JInt (sg * int (digits_val ip)), s4))
               else Inr (JFloat (Decimal (sg * int (digits_val (ip @ fp)))
                                  ((case ex of None \<Rightarrow> 0 | Some (x, _) \<Rightarrow> x) - int (length fp))),
                         s4)))"

text \<open>
  The recursive descent over values, array elements and object members. The first argument
  is fuel for the recursion of the model: \<open>json_loads\<close> gives the fuel \<open>2 * length s + 2\<close>,
  which is enough for every text (lemma \<open>json_loads_fuel\<close> below). The second argument is
  the number of containers that may still be entered, the third the limit on digits.
\<close>

fun parse_value :: "nat \<Rightarrow> nat \<Rightarrow> nat \<Rightarrow> string \<Rightarrow> error + (json \<times> string)"
  and parse_array ::
    "nat \<Rightarrow> nat \<Rightarrow> nat \<Rightarrow> json list \<Rightarrow> string \<Rightarrow> error + (json \<times> string)"
  and parse_object ::
    "nat \<Rightarrow> nat \<Rightarrow> nat \<Rightarrow> (string \<times> json) list \<Rightarrow> string \<Rightarrow> error + (json \<times> string)"
where
  "parse_value 0 d lim s = Inl JSONDecodeError"
| "parse_value (Suc n) d lim s =
     (case s of
        [] \<Rightarrow> Inl JSONDecodeError
      | c # t \<Rightarrow>
          if c = CHR 0x22 then
            (case scanstring t of
               None \<Rightarrow> Inl JSONDecodeError
             | Some (x, rest) \<Rightarrow> Inr (JStr x, rest))
          else if c = CHR ''{'' then
            (if d = 0 then Inl RecursionError
             else
               (case skip_ws t of
                  [] \<Rightarrow> Inl JSONDecodeError
                | c' # t' \<Rightarrow>
                    if c' = CHR ''}'' then Inr (JObj [], t')
                    else parse_object n (d - 1) lim [] (c' # t')))
          else if c = CHR ''['' then
            (if d = 0 then Inl RecursionError
             else
               (case skip_ws t of
                  [] \<Rightarrow> Inl JSONDecodeError
                | c' # t' \<Rightarrow>
                    if c' = CHR '']'' then Inr (JArr [], t')
                    else parse_array n (d - 1) lim [] (c' # t')))
          else if startswith s ''null'' then Inr (JNull, drop 4 s)
          else if startswith s ''true'' then Inr (JBool True, drop 4 s)
          else if startswith s ''false'' then Inr (JBool False, drop 5 s)
          else if startswith s ''NaN'' then Inr (JFloat NaN, drop 3 s)
          else if startswith s ''Infinity'' then Inr (JFloat PosInf, drop 8 s)
          else if startswith s ''-Infinity'' then Inr (JFloat NegInf, drop 9 s)
          else scan_number lim s)"
| "parse_array 0 d lim acc s = Inl JSONDecodeError"
| "parse_array (Suc n) d lim acc s =
     (case parse_value n d lim s of
        Inl e \<Rightarrow> Inl e
      | Inr (v, rest) \<Rightarrow>
          (case skip_ws rest of
             [] \<Rightarrow> Inl JSONDecodeError
           | c # t \<Rightarrow>
               if c = CHR '','' then parse_array n d lim (acc @ [v]) (skip_ws t)
               else if c = CHR '']'' then Inr (JArr (acc @ [v]), t)
               else Inl JSONDecodeError))"
| "parse_object 0 d lim acc s = Inl JSONDecodeError"
| "parse_object (Suc n) d lim acc s =
     (case s of
        [] \<Rightarrow> Inl JSONDecodeError
      | q # t \<Rightarrow>
          if q \<noteq> CHR 0x22 then Inl JSONDecodeError
          else
            (case scanstring t of
               None \<Rightarrow> Inl JSONDecodeError
             | Some (k, rest) \<Rightarrow>
                 (case skip_ws rest of
                    [] \<Rightarrow> Inl JSONDecodeError
                  | c # t1 \<Rightarrow>
                      if c \<noteq> CHR '':'' then Inl JSONDecodeError
                      else
                        (case parse_value n d lim (skip_ws t1) of
                           Inl e \<Rightarrow> Inl e
                         | Inr (v, rest1) \<Rightarrow>
                             (case skip_ws rest1 of
                                [] \<Rightarrow> Inl JSONDecodeError
                              | c1 # t2 \<Rightarrow>
                                  if c1 = CHR '','' then
                                    parse_object n d lim (dict_set acc k v) (skip_ws t2)
                                  else if c1 = CHR ''}'' then Inr (JObj (dict_set acc k v), t2)
                                  else Inl JSONDecodeError)))))"

text \<open>\<^verbatim>\<open>json.loads\<close>: the decoded value, or the exception raised.\<close>

definition json_loads :: "runtime \<Rightarrow> string \<Rightarrow> error + json" where
  "json_loads rt s =
     (case parse_value (2 * length s + 2) (nesting_limit rt) (max_str_digits rt) (skip_ws s) of
        Inl e \<Rightarrow> Inl e
      | Inr (v, rest) \<Rightarrow> if skip_ws rest = [] then Inr v else Inl JSONDecodeError)"

section \<open>Operations of Python values\<close>

text \<open>
  The program applies dictionary and list operations to whatever \<^verbatim>\<open>json.loads\<close> returned.
  On a value of another type Python raises; each such raise is a branch here.
\<close>

text \<open>\<^verbatim>\<open>v.get(k, default)\<close>: only a dictionary has the method.\<close>

definition py_get :: "json \<Rightarrow> string \<Rightarrow> json \<Rightarrow> error + json" where
  "py_get v k dflt =
     (case v of
        JObj d \<Rightarrow> (case map_of d k of None \<Rightarrow> Inr dflt | Some x \<Rightarrow> Inr x)
      | _ \<Rightarrow> Inl AttributeError)"

text \<open>\<^verbatim>\<open>v[k]\<close> with a string key.\<close>

definition py_item :: "json \<Rightarrow> string \<Rightarrow> error + json" where
  "py_item v k =
     (case v of
        JObj d \<Rightarrow> (case map_of d k of None \<Rightarrow> Inl KeyError | Some x \<Rightarrow> Inr x)
      | _ \<Rightarrow> Inl TypeError)"

definition utf8_len :: "char \<Rightarrow> nat" where
  "utf8_len a =
     (let x = (of_char a :: nat) in
      if x < 0x80 then 1 else if x < 0xE0 then 2 else if x < 0xF0 then 3 else 4)"

text \<open>
  \<^verbatim>\<open>v[0]\<close>: the first element of a list, the first character of a string; a dictionary
  decoded from JSON has string keys only, so the key \<^verbatim>\<open>0\<close> is missing.
\<close>

definition py_first :: "json \<Rightarrow> error + json" where
  "py_first v =
     (case v of
        JArr xs \<Rightarrow> (case xs of [] \<Rightarrow> Inl IndexError | x # _ \<Rightarrow> Inr x)
      | JStr s \<Rightarrow> (case s of [] \<Rightarrow> Inl IndexError | a # _ \<Rightarrow> Inr (JStr (take (utf8_len a) s)))
      | JObj d \<Rightarrow> Inl KeyError
      | _ \<Rightarrow> Inl TypeError)"

fun contains_str :: "string \<Rightarrow> string \<Rightarrow> bool" where
  "contains_str [] k = (k = [])"
| "contains_str (c # s) k = (startswith (c # s) k \<or> contains_str s k)"

text \<open>
  \<^verbatim>\<open>k in v\<close> with a string \<open>k\<close>: a key of a dictionary, an element of a list, a substring
  of a string.
\<close>

definition py_in :: "string \<Rightarrow> json \<Rightarrow> error + bool" where
  "py_in k v =
     (case v of
        JObj d \<Rightarrow> Inr (map_of d k \<noteq> None)
      | JArr xs \<Rightarrow> Inr (List.member xs (JStr k))
      | JStr s \<Rightarrow> Inr (contains_str s k)
      | _ \<Rightarrow> Inl TypeError)"

section \<open>Lines of the response\<close>

text \<open>
  A line of the response is \<^verbatim>\<open>bytes\<close> or \<^verbatim>\<open>str\<close>. \<^verbatim>\<open>bytes.decode("utf-8")\<close> returns the text
  of well-formed UTF-8 and raises \<^verbatim>\<open>UnicodeDecodeError\<close> otherwise.
\<close>

datatype line = Bytes string | Str string

definition in_range :: "char \<Rightarrow> nat \<Rightarrow> nat \<Rightarrow> bool" where
  "in_range c lo hi = (lo \<le> (of_char c :: nat) \<and> (of_char c :: nat) \<le> hi)"

fun utf8_valid :: "string \<Rightarrow> bool" where
  "utf8_valid [] = True"
| "utf8_valid (a # s) =
     (if in_range a 0x00 0x7F then utf8_valid s
      else if in_range a 0xC2 0xDF then
        (case s of
           b # s1 \<Rightarrow> in_range b 0x80 0xBF \<and> utf8_valid s1
         | _ \<Rightarrow> False)
      else if in_range a 0xE0 0xEF then
        (case s of
           b # c # s2 \<Rightarrow>
             in_range b (if a = CHR 0xE0 then 0xA0 else 0x80) (if a = CHR 0xED then 0x9F else 0xBF)
             \<and> in_range c 0x80 0xBF \<and> utf8_valid s2
         | _ \<Rightarrow> False)
      else if in_range a 0xF0 0xF4 then
        (case s of
           b # c # d # s3 \<Rightarrow>
             in_range b (if a = CHR 0xF0 then 0x90 else 0x80) (if a = CHR 0xF4 then 0x8F else 0xBF)
             \<and> in_range c 0x80 0xBF \<and> in_range d 0x80 0xBF \<and> utf8_valid s3
         | _ \<Rightarrow> False)
      else False)"

definition is_empty :: "line \<Rightarrow> bool" where
  "is_empty l = (case l of Bytes b \<Rightarrow> b = [] | Str s \<Rightarrow> s = [])"

text \<open>The text of a line after \<^verbatim>\<open>if isinstance(line, bytes): line = line.decode("utf-8")\<close>.\<close>

definition decode :: "line \<Rightarrow> error + string" where
  "decode l =
     (case l of
        Bytes b \<Rightarrow> if utf8_valid b then Inr b else Inl UnicodeDecodeError
      | Str s \<Rightarrow> Inr s)"

section \<open>Console markup\<close>

text \<open>
  \<^verbatim>\<open>Console.print\<close> of the \<^verbatim>\<open>rich\<close> library renders its argument as console markup before
  showing it, and raises \<^verbatim>\<open>MarkupError\<close> for a closing tag that closes nothing. This section
  follows \<^verbatim>\<open>rich.markup\<close>: the scan for tags, and the stack of open tags.

  A tag is found by the pattern \<^verbatim>\<open>(\\*)\[([a-z#/@][^[]*?)]\<close>: a run of backslashes, an opening
  bracket, a first character that is a lower-case letter or one of \<^verbatim>\<open>#\<close>, \<^verbatim>\<open>/\<close>, \<^verbatim>\<open>@\<close>, then
  the characters up to the next closing bracket, none of them an opening bracket. An odd
  number of backslashes escapes the tag. The scanner below reads the text once: outside a
  tag it counts the backslashes just read, after an opening bracket it looks at the first
  character, and inside a candidate it collects the tag text, giving the candidate up at
  an opening bracket.
\<close>

definition tag_start :: "char \<Rightarrow> bool" where
  "tag_start c =
     ((97 \<le> (of_char c :: nat) \<and> (of_char c :: nat) \<le> 122)
      \<or> c = CHR ''#'' \<or> c = CHR ''/'' \<or> c = CHR ''@'')"

datatype scan_state =
    Outside nat             \<comment> \<open>the number of backslashes just read\<close>
  | Opened nat              \<comment> \<open>after a bracket preceded by that many backslashes\<close>
  | Inside nat string nat   \<comment> \<open>the tag text so far, reversed, and the backslashes just read\<close>

fun scan_tags :: "scan_state \<Rightarrow> string \<Rightarrow> string list" where
  "scan_tags st [] = []"
| "scan_tags (Outside k) (c # s) =
     (if c = CHR 0x5C then scan_tags (Outside (Suc k)) s
      else if c = CHR ''['' then scan_tags (Opened k) s
      else scan_tags (Outside 0) s)"
| "scan_tags (Opened k) (c # s) =
     (if tag_start c then scan_tags (Inside k [c] 0) s
      else if c = CHR 0x5C then scan_tags (Outside 1) s
      else if c = CHR ''['' then scan_tags (Opened 0) s
      else scan_tags (Outside 0) s)"
| "scan_tags (Inside k acc j) (c # s) =
     (if c = CHR '']'' then (if even k then [rev acc] else []) @ scan_tags (Outside 0) s
      else if c = CHR ''['' then scan_tags (Opened j) s
      else if c = CHR 0x5C then scan_tags (Inside k (c # acc) (Suc j)) s
      else scan_tags (Inside k (c # acc) 0) s)"

text \<open>\<^verbatim>\<open>tag_text.partition("=")\<close>: the name of a tag and its parameters, if any.\<close>

definition tag_name :: "string \<Rightarrow> string" where
  "tag_name t = takeWhile (\<lambda>c. c \<noteq> CHR ''='') t"

definition tag_parameters :: "string \<Rightarrow> string option" where
  "tag_parameters t =
     (if CHR ''='' \<in> set t then Some (tl (dropWhile (\<lambda>c. c \<noteq> CHR ''='') t)) else None)"

text \<open>
  \<^verbatim>\<open>str.strip()\<close>: the white space of Python at both ends goes. These are the characters
  U+0009 to U+000D, U+001C to U+0020, U+0085, U+00A0, U+1680, U+2000 to U+200A, U+2028,
  U+2029, U+202F, U+205F and U+3000, here in their UTF-8 encoding.
\<close>

definition space1 :: "char \<Rightarrow> bool" where
  "space1 a = (in_range a 0x09 0x0D \<or> in_range a 0x1C 0x20)"

definition space2 :: "char \<Rightarrow> char \<Rightarrow> bool" where
  "space2 a b = (a = CHR 0xC2 \<and> (b = CHR 0x85 \<or> b = CHR 0xA0))"

definition space3 :: "char \<Rightarrow> char \<Rightarrow> char \<Rightarrow> bool" where
  "space3 a b c =
     ((a = CHR 0xE1 \<and> b = CHR 0x9A \<and> c = CHR 0x80)
      \<or> (a = CHR 0xE2 \<and> b = CHR 0x80
          \<and> (in_range c 0x80 0x8A \<or> c = CHR 0xA8 \<or> c = CHR 0xA9 \<or> c = CHR 0xAF))
      \<or> (a = CHR 0xE2 \<and> b = CHR 0x81 \<and> c = CHR 0x9F)
      \<or> (a = CHR 0xE3 \<and> b = CHR 0x80 \<and> c = CHR 0x80))"

fun lstrip :: "string \<Rightarrow> string" where
  "lstrip [] = []"
| "lstrip (a # s) =
     (if space1 a then lstrip s
      else
        (case s of
           [] \<Rightarrow> a # s
         | b # s1 \<Rightarrow>
             if space2 a b then lstrip s1
             else
               (case s1 of
                  [] \<Rightarrow> a # s
                | c # s2 \<Rightarrow> if space3 a b c then lstrip s2 else a # s)))"

text \<open>The same from the end, on the reversed text.\<close>

fun rstrip_rev :: "string \<Rightarrow> string" where
  "rstrip_rev [] = []"
| "rstrip_rev (c # s) =
     (if space1 c then rstrip_rev s
      else
        (case s of
           [] \<Rightarrow> c # s
         | b # s1 \<Rightarrow>
             if space2 b c then rstrip_rev s1
             else
               (case s1 of
                  [] \<Rightarrow> c # s
                | a # s2 \<Rightarrow> if space3 a b c then rstrip_rev s2 else c # s)))"

definition strip :: "string \<Rightarrow> string" where
  "strip s = rev (rstrip_rev (rev (lstrip s)))"

text \<open>
  \<^verbatim>\<open>pop_style\<close>: the innermost open tag with the given name leaves the stack (the head of the
  list is the innermost tag).
\<close>

fun pop_style ::
  "string \<Rightarrow> (string \<times> string option) list \<Rightarrow>
   ((string \<times> string option) \<times> (string \<times> string option) list) option" where
  "pop_style nm [] = None"
| "pop_style nm (e # st) =
     (if fst e = nm then Some (e, st)
      else (case pop_style nm st of
              None \<Rightarrow> None
            | Some (x, st') \<Rightarrow> Some (x, e # st')))"

text \<open>
  The loop of \<^verbatim>\<open>render\<close> over the tags, \<open>False\<close> for \<^verbatim>\<open>MarkupError\<close>. An opening tag goes on
  the stack under its normalised name. A closing tag with a name closes the innermost open
  tag of that normalised name, and \<^verbatim>\<open>[/]\<close> closes the innermost open tag; with nothing to
  close, the error is raised. When the tag closed is a meta tag (its name starts with
  \<^verbatim>\<open>@\<close>) with parameters, the parameters are evaluated, which can fail. Tags still open at
  the end are closed without error.
\<close>

fun render_tags :: "runtime \<Rightarrow> (string \<times> string option) list \<Rightarrow> string list \<Rightarrow> bool" where
  "render_tags rt st [] = True"
| "render_tags rt st (t # ts) =
     (if startswith (tag_name t) ''/'' then
        (case (if strip (tl (tag_name t)) \<noteq> []
               then pop_style (normalize rt (strip (tl (tag_name t)))) st
               else (case st of [] \<Rightarrow> None | e # st' \<Rightarrow> Some (e, st'))) of
           None \<Rightarrow> False
         | Some (open_tag, st') \<Rightarrow>
             if startswith (fst open_tag) ''@''
                \<and> (case snd open_tag of None \<Rightarrow> False | Some p \<Rightarrow> p \<noteq> [] \<and> \<not> meta_ok rt p)
             then False
             else render_tags rt st' ts)
      else render_tags rt ((normalize rt (tag_name t), tag_parameters t) # st) ts)"

text \<open>\<^verbatim>\<open>render\<close>: a text without an opening bracket is not scanned at all.\<close>

definition markup_ok :: "runtime \<Rightarrow> string \<Rightarrow> bool" where
  "markup_ok rt markup =
     (CHR ''['' \<notin> set markup \<or> render_tags rt [] (scan_tags (Outside 0) markup))"

section \<open>The streaming decoder and the accumulator\<close>

text \<open>
  Of the object \<^verbatim>\<open>self\<close> the streaming code reads \<^verbatim>\<open>verbose\<close> and writes to the console. The
  console is the trace of what was shown: \<open>Print\<close> for \<^verbatim>\<open>console.print\<close>, \<open>Update\<close> for a
  repaint of the live display with the given Markdown text. \<^verbatim>\<open>console.print\<close> takes console
  markup and raises \<^verbatim>\<open>MarkupError\<close> when the markup is refused; a repaint renders Markdown,
  which accepts every text. The code theme of a repaint and the pause between repaints are
  left out, and the output stream is taken to accept what is written to it.
\<close>

datatype event = Print string | Update string

record cli =
  verbose :: bool
  console :: "event list"

definition console_print :: "runtime \<Rightarrow> cli \<Rightarrow> string \<Rightarrow> error + cli" where
  "console_print rt self msg =
     (if markup_ok rt msg then Inr (self\<lparr>console := console self @ [Print msg]\<rparr>)
      else Inl MarkupError)"

definition live_update :: "cli \<Rightarrow> string \<Rightarrow> cli" where
  "live_update self markup = self\<lparr>console := console self @ [Update markup]\<rparr>"

text \<open>
  \<^verbatim>\<open>get_reasoning_content\<close>: the loop over the two keys; the result \<open>JNull\<close> is \<^verbatim>\<open>None\<close>.
\<close>

fun first_present :: "string list \<Rightarrow> json \<Rightarrow> error + json" where
  "first_present [] delta = Inr JNull"
| "first_present (k # ks) delta =
     (case py_in k delta of
        Inl e \<Rightarrow> Inl e
      | Inr True \<Rightarrow> py_item delta k
      | Inr False \<Rightarrow> first_present ks delta)"

definition get_reasoning_content :: "json \<Rightarrow> error + json" where
  "get_reasoning_content delta = first_present [''reasoning_content'', ''reasoning''] delta"

text \<open>
  \<^verbatim>\<open>_parse_stream_line\<close>: the result \<open>Inr JNull\<close> is the return value \<^verbatim>\<open>None\<close>. The handler
  catches \<^verbatim>\<open>JSONDecodeError\<close> only; any other exception leaves the \<^verbatim>\<open>try\<close> block, and an
  exception raised by a \<^verbatim>\<open>console.print\<close> of the handler leaves the function.
\<close>

definition parse_stream_line :: "runtime \<Rightarrow> cli \<Rightarrow> line \<Rightarrow> (error + json) \<times> cli" where
  "parse_stream_line rt self l =
     (if is_empty l then (Inr JNull, self)
      else
        (case decode l of
           Inl e \<Rightarrow> (Inl e, self)
         | Inr text \<Rightarrow>
             if \<not> startswith text ''data: '' then (Inr JNull, self)
             else
               (let payload = drop 6 text in
                if payload = ''[DONE]'' then (Inr JNull, self)
                else
                  (case json_loads rt payload of
                     Inr json_data \<Rightarrow>
                       (case py_get json_data ''choices'' JNull of
                          Inl e \<Rightarrow> (Inl e, self)
                        | Inr choices \<Rightarrow>
                            if \<not> truthy choices then (Inr JNull, self)
                            else (Inr json_data, self))
                   | Inl e \<Rightarrow>
                       if e \<noteq> JSONDecodeError then (Inl e, self)
                       else
                         (case console_print rt self ''[red]Error decoding response JSON[/red]'' of
                            Inl e1 \<Rightarrow> (Inl e1, self)
                          | Inr self1 \<Rightarrow>
                              if verbose self1 then
                                (case console_print rt self1
                                        (''[red]Error JSON data: '' @ payload @ ''[/red]'') of
                                   Inl e2 \<Rightarrow> (Inl e2, self1)
                                 | Inr self2 \<Rightarrow> (Inr JNull, self2))
                              else (Inr JNull, self1))))))"

text \<open>\<^verbatim>\<open>_process_reasoning_content\<close> and \<^verbatim>\<open>_process_regular_content\<close>, on text as annotated.\<close>

definition process_reasoning_content :: "string \<Rightarrow> string \<Rightarrow> bool \<Rightarrow> string \<times> bool" where
  "process_reasoning_content reason full_completion in_reasoning =
     (let (full_completion1, in_reasoning1) =
            (if \<not> in_reasoning then (''> Reasoning:\<newline>> '', True)
             else (full_completion, in_reasoning))
      in (full_completion1 @ replace_newline reason, in_reasoning1))"

definition process_regular_content :: "string \<Rightarrow> string \<Rightarrow> bool \<Rightarrow> string \<times> bool" where
  "process_regular_content content full_completion in_reasoning =
     (let (full_completion1, in_reasoning1) =
            (if in_reasoning then (full_completion @ ''\<newline>\<newline>'', False)
             else (full_completion, in_reasoning))
      in (full_completion1 @ content, in_reasoning1))"

text \<open>
  The body of the loop of \<^verbatim>\<open>_print_stream\<close>. \<open>get_delta\<close> is
  \<^verbatim>\<open>json_data["choices"][0]["delta"]\<close>. \<open>process_delta\<close> is the branch on the reasoning text:
  a reason that is not text has no \<^verbatim>\<open>replace\<close> method, and content that is not text cannot
  be appended to the buffer.
\<close>

definition get_delta :: "json \<Rightarrow> error + json" where
  "get_delta json_data =
     (case py_item json_data ''choices'' of
        Inl e \<Rightarrow> Inl e
      | Inr choices \<Rightarrow>
          (case py_first choices of
             Inl e \<Rightarrow> Inl e
           | Inr choice \<Rightarrow> py_item choice ''delta''))"

definition process_delta :: "json \<Rightarrow> string \<times> bool \<Rightarrow> error + (string \<times> bool)" where
  "process_delta delta acc =
     (case get_reasoning_content delta of
        Inl e \<Rightarrow> Inl e
      | Inr reason \<Rightarrow>
          if reason \<noteq> JNull then
            (case reason of
               JStr r \<Rightarrow> Inr (process_reasoning_content r (fst acc) (snd acc))
             | _ \<Rightarrow> Inl AttributeError)
          else
            (case py_get delta ''content'' (JStr []) of
               Inl e \<Rightarrow> Inl e
             | Inr c \<Rightarrow>
                 (case (if truthy c then c else JStr []) of
                    JStr content \<Rightarrow> Inr (process_regular_content content (fst acc) (snd acc))
                  | _ \<Rightarrow> Inl TypeError)))"

record locals =
  full_content :: string
  in_reasoning :: bool
  cursor_index :: nat

definition cursor_chars :: "string list" where
  "cursor_chars = [''_'', '' '']"

fun for_lines :: "runtime \<Rightarrow> cli \<Rightarrow> locals \<Rightarrow> line list \<Rightarrow> error + (locals \<times> cli)" where
  "for_lines rt self st [] = Inr (st, self)"
| "for_lines rt self st (l # ls) =
     (case parse_stream_line rt self l of
        (Inl e, self1) \<Rightarrow> Inl e
      | (Inr json_data, self1) \<Rightarrow>
          if \<not> truthy json_data then for_lines rt self1 st ls
          else
            (case get_delta json_data of
               Inl e \<Rightarrow> Inl e
             | Inr delta \<Rightarrow>
                 (case process_delta delta (full_content st, in_reasoning st) of
                    Inl e \<Rightarrow> Inl e
                  | Inr (full, in_r) \<Rightarrow>
                      for_lines rt
                        (live_update self1 (full @ cursor_chars ! cursor_index st))
                        \<lparr>full_content = full, in_reasoning = in_r,
                         cursor_index = (cursor_index st + 1) mod 2\<rparr>
                        ls)))"

text \<open>
  \<^verbatim>\<open>_print_stream\<close> on the lines of the response: the returned text and the object after the
  call, or the exception that left the loop.
\<close>

definition print_stream :: "runtime \<Rightarrow> cli \<Rightarrow> line list \<Rightarrow> error + (string \<times> cli)" where
  "print_stream rt self ls =
     (case console_print rt self ''Assistant:'' of
        Inl e \<Rightarrow> Inl e
      | Inr self0 \<Rightarrow>
          (case for_lines rt self0
                  \<lparr>full_content = [], in_reasoning = False, cursor_index = 0\<rparr> ls of
             Inl e \<Rightarrow> Inl e
           | Inr (st, self1) \<Rightarrow> Inr (full_content st, live_update self1 (full_content st))))"

text \<open>
  The runtime of the closed instances below: the default limits of CPython (a recursion
  limit of 1000, of which the decoder has at most that many levels, and 4300 digits), style
  names that are their own normal form, as the plain colour names are, and meta parameters
  that evaluate.
\<close>

definition default_runtime :: runtime where
  "default_runtime =
     \<lparr>nesting_limit = 1000, max_str_digits = 4300,
      normalize = (\<lambda>name. name), meta_ok = (\<lambda>p. True)\<rparr>"

section \<open>The chat store\<close>

text \<open>
  Modelled from the spec: the chat store (the class \<^verbatim>\<open>FileChatManager\<close> of the module
  \<^verbatim>\<open>yaicli.chat_manager\<close>, of which only the tests are at hand) with its filename codec. The
  definitions of this section follow sections 3, 4.1, 4.2 and 6 of the specification. The
  directory maps file names to files. The lookup cache of the store is kept in step by the
  store's own operations, so a lookup is a function of the directory.
\<close>

text \<open>Modelled from the spec: a message \<^verbatim>\<open>{role, content}\<close>; a history is a list of messages.\<close>

record message =
  role :: string
  content :: string

text \<open>Modelled from the spec: the schema of a session file, \<^verbatim>\<open>{title, date, history}\<close>.\<close>

record session_file =
  file_title :: string
  file_date :: string
  file_history :: "message list"

text \<open>Modelled from the spec: the content of a file: a session, or text that does not parse.\<close>

datatype file_content = Stored session_file | Corrupt string

text \<open>Modelled from the spec: a file of the directory with its modification time.\<close>

record chat_file =
  mtime :: nat
  body :: file_content

text \<open>Modelled from the spec: the store: the directory and the configured cap \<^verbatim>\<open>MAX_SAVED_CHATS\<close>.\<close>

record chat_store =
  files :: "(string \<times> chat_file) list"
  max_saved_chats :: nat

text \<open>Modelled from the spec: the result \<^verbatim>\<open>{title, history}\<close> of a load.\<close>

record chat_session =
  title :: string
  history :: "message list"

text \<open>Modelled from the spec: the result \<^verbatim>\<open>{index, title, date}\<close> of decoding a file name.\<close>

record chat_info =
  info_index :: nat
  info_title :: string
  info_date :: string

text \<open>Modelled from the spec: the wall-clock time that goes into a file name.\<close>

record timestamp =
  year :: nat
  month :: nat
  day :: nat
  hour :: nat
  minute :: nat
  second :: nat

text \<open>
  Modelled from the spec: what the environment supplies to one save, namely the wall-clock
  time, the Unix time (also the modification time of the file written), and whether the file
  system accepts the write.
\<close>

record env =
  now :: timestamp
  unix_time :: nat
  write_ok :: bool

text \<open>Modelled from the spec: the failure of a write.\<close>

datatype io_error = IOFailure

text \<open>Modelled from the spec: decimal digits, fixed width for the fields of a timestamp.\<close>

fun pad :: "nat \<Rightarrow> nat \<Rightarrow> string" where
  "pad 0 n = []"
| "pad (Suc w) n = pad w (n div 10) @ [char_of (48 + n mod 10)]"

text \<open>Modelled from the spec: the decimal digits of a Unix time.\<close>

function show_nat :: "nat \<Rightarrow> string" where
  "show_nat n = (if n < 10 then [char_of (48 + n)] else show_nat (n div 10) @ [char_of (48 + n mod 10)])"
  by pat_completeness auto
termination
  by (relation "measure id") auto

text \<open>Modelled from the spec: the timestamp \<^verbatim>\<open>YYYYMMDD-HHMMSS\<close> of a file name.\<close>

definition format_timestamp :: "timestamp \<Rightarrow> string" where
  "format_timestamp t =
     pad 4 (year t) @ pad 2 (month t) @ pad 2 (day t) @ ''-'' @
     pad 2 (hour t) @ pad 2 (minute t) @ pad 2 (second t)"

text \<open>Modelled from the spec: the slug is the title with spaces replaced by underscores.\<close>

definition slug :: "string \<Rightarrow> string" where
  "slug t = map (\<lambda>c. if c = CHR '' '' then CHR ''_'' else c) t"

text \<open>Modelled from the spec: decoding restores the underscores of a slug to spaces.\<close>

definition unslug :: "string \<Rightarrow> string" where
  "unslug s = map (\<lambda>c. if c = CHR ''_'' then CHR '' '' else c) s"

text \<open>
  Modelled from the spec: \<^verbatim>\<open>encode(title, timestamp)\<close> of the filename codec, giving
  \<^verbatim>\<open><YYYYMMDD-HHMMSS>-title-<slug>.json\<close>.
\<close>

definition encode :: "string \<Rightarrow> timestamp \<Rightarrow> string" where
  "encode t ts = format_timestamp ts @ ''-title-'' @ slug t @ ''.json''"

text \<open>Modelled from the spec: the stem of a file name, without the extension \<^verbatim>\<open>.json\<close>.\<close>

definition stem :: "string \<Rightarrow> string" where
  "stem name =
     (if 5 \<le> length name \<and> drop (length name - 5) name = ''.json''
      then take (length name - 5) name else name)"

text \<open>Modelled from the spec: the split of a name at the first occurrence of a separator.\<close>

fun split_first :: "string \<Rightarrow> string \<Rightarrow> (string \<times> string) option" where
  "split_first sep [] = None"
| "split_first sep (c # s) =
     (if startswith (c # s) sep then Some ([], drop (length sep) (c # s))
      else (case split_first sep s of
              None \<Rightarrow> None
            | Some (l, r) \<Rightarrow> Some (c # l, r)))"

text \<open>
  Modelled from the spec: the date shown for the left part of a file name,
  \<^verbatim>\<open>YYYY-MM-DD HH:MM\<close>, or the empty string when the left part is not a timestamp.
\<close>

definition show_date :: "string \<Rightarrow> string" where
  "show_date l =
     (if length l = 15 \<and> l ! 8 = CHR ''-'' \<and> list_all is_digit (take 8 l)
         \<and> list_all is_digit (drop 9 l)
      then take 4 l @ ''-'' @ take 2 (drop 4 l) @ ''-'' @ take 2 (drop 6 l) @ '' '' @
           take 2 (drop 9 l) @ '':'' @ take 2 (drop 11 l)
      else [])"

text \<open>
  Modelled from the spec: \<^verbatim>\<open>decode(filename, assignedIndex)\<close> of the filename codec. A name
  without the separator is irregular: its title is the stem with the underscores replaced,
  its date is empty.
\<close>

definition decode_filename :: "string \<Rightarrow> nat \<Rightarrow> chat_info" where
  "decode_filename name i =
     (case split_first ''-title-'' (stem name) of
        Some (l, r) \<Rightarrow> \<lparr>info_index = i, info_title = unslug r, info_date = show_date l\<rparr>
      | None \<Rightarrow> \<lparr>info_index = i, info_title = unslug (stem name), info_date = []\<rparr>)"

text \<open>
  Modelled from the spec: the title of a session without an explicit title, from the prompt
  when there is one (at most 50 characters, spaces replaced by underscores), else
  \<^verbatim>\<open>Chat-<unix-timestamp>\<close>.
\<close>

definition make_chat_title :: "string option \<Rightarrow> nat \<Rightarrow> string" where
  "make_chat_title prompt t =
     (case prompt of
        Some p \<Rightarrow> slug (take 50 p)
      | None \<Rightarrow> ''Chat-'' @ show_nat t)"

text \<open>
  Modelled from the spec: the directory listed by modification time, most recent first.
\<close>

definition listing :: "chat_store \<Rightarrow> (string \<times> chat_file) list" where
  "listing store = rev (sort_key (\<lambda>p. mtime (snd p)) (files store))"

text \<open>
  Modelled from the spec: eviction after a save. While more files than the cap exist, the
  oldest files are deleted; the file just written is never a candidate.
\<close>

definition evict :: "nat \<Rightarrow> string \<Rightarrow> (string \<times> chat_file) list \<Rightarrow> (string \<times> chat_file) list" where
  "evict cap written fs =
     (let candidates = sort_key (\<lambda>p. mtime (snd p)) (filter (\<lambda>p. fst p \<noteq> written) fs);
          victims = map fst (take (length fs - cap) candidates)
      in filter (\<lambda>p. \<not> List.member victims (fst p)) fs)"

text \<open>
  Modelled from the spec: \<^verbatim>\<open>saveChat(history, title?)\<close>. An empty history is a no-op that
  returns the empty title. A save with the title of an existing session overwrites it: the
  session files with that title go, the new file is written whole, then the cap is enforced.
  A failed write is an \<open>IOFailure\<close> and leaves the directory as it was.
\<close>

definition save_chat ::
  "chat_store \<Rightarrow> env \<Rightarrow> message list \<Rightarrow> string option \<Rightarrow> io_error + (string \<times> chat_store)" where
  "save_chat store e h topt =
     (if h = [] then Inr ([], store)
      else
        (let t = (case topt of Some x \<Rightarrow> x | None \<Rightarrow> make_chat_title None (unix_time e));
             name = encode t (now e);
             kept = filter (\<lambda>p. info_title (decode_filename (fst p) 0) \<noteq> t) (files store);
             new = \<lparr>mtime = unix_time e,
                    body = Stored \<lparr>file_title = t,
                                   file_date = show_date (format_timestamp (now e)),
                                   file_history = h\<rparr>\<rparr>
         in if \<not> write_ok e then Inl IOFailure
            else Inr (t, store\<lparr>files := evict (max_saved_chats store) name
                                           (filter (\<lambda>p. fst p \<noteq> name) kept @ [(name, new)])\<rparr>)))"

text \<open>
  Modelled from the spec: \<^verbatim>\<open>loadChatByTitle(title)\<close>. The session is found by the title its
  file name decodes to; no such file, or a file that does not parse, gives the empty result
  \<open>None\<close>.
\<close>

definition load_chat_by_title :: "chat_store \<Rightarrow> string \<Rightarrow> chat_session option" where
  "load_chat_by_title store t =
     (case find (\<lambda>p. info_title (decode_filename (fst p) 0) = t) (listing store) of
        None \<Rightarrow> None
      | Some p \<Rightarrow>
          (case body (snd p) of
             Corrupt _ \<Rightarrow> None
           | Stored s \<Rightarrow> Some \<lparr>title = file_title s, history = file_history s\<rparr>))"

section \<open>The fuel of the JSON decoder\<close>

text \<open>
  Every scanner consumes at least one character of its input, so the recursive descent
  needs at most two units of fuel per character. From the fuel that \<open>json_loads\<close> gives,
  more fuel never changes the result: the result \<open>None\<close> of \<open>json_loads\<close> is always a
  rejection by the grammar, never an exhausted recursion.
\<close>

lemma skip_ws_length: "length (skip_ws s) \<le> length s"
  by (simp add: skip_ws_def length_dropWhile_le)

lemma scan_exp_length: "scan_exp s = Some (x, rest) \<Longrightarrow> length rest \<le> length s"
  by (auto simp: scan_exp_def Let_def split: list.splits if_splits)

lemma scan_units_consumes: "scan_units s = Some (us, rest) \<Longrightarrow> length rest < length s"
proof (induction s arbitrary: us rest rule: scan_units.induct)
  case 1
  then show ?case by simp
next
  case (2 c s)
  show ?case
  proof (cases "c = CHR 0x22")
    case True
    with "2.prems" show ?thesis by simp
  next
    case nq: False
    show ?thesis
    proof (cases "c = CHR 0x5C")
      case bs: True
      show ?thesis
      proof (cases s)
        case Nil
        with nq bs "2.prems" show ?thesis by simp
      next
        case (Cons e t)
        show ?thesis
        proof (cases "e = CHR ''u''")
          case u: True
          from nq bs Cons u "2.prems" obtain a b c' d t' cp us' where
            t: "t = a # b # c' # d # t'" and h: "hex4 a b c' d = Some cp"
            and r: "scan_units t' = Some (us', rest)"
            by (auto split: list.splits option.splits)
          have "length rest < length t'"
            using "2.IH"(1) [of e t a "b # c' # d # t'" b "c' # d # t'" c' "d # t'" d t' cp us' rest]
              nq bs Cons u t h r by simp
          with Cons t show ?thesis by simp
        next
          case nu: False
          from nq bs Cons nu "2.prems" obtain x us' where
            x: "escape_char e = Some x" and r: "scan_units t = Some (us', rest)"
            by (auto split: option.splits)
          have "length rest < length t"
            using "2.IH"(2) [of e t x us' rest] nq bs Cons nu x r by simp
          with Cons show ?thesis by simp
        qed
      qed
    next
      case nb: False
      from nq nb "2.prems" obtain us' where
        ctl: "\<not> (of_char c :: nat) < 0x20" and r: "scan_units s = Some (us', rest)"
        by (auto split: option.splits if_splits)
      have "length rest < length s"
        using "2.IH"(3) [of us' rest] nq nb ctl r by simp
      then show ?thesis by simp
    qed
  qed
qed

lemma scanstring_consumes: "scanstring s = Some (x, rest) \<Longrightarrow> length rest < length s"
  by (auto simp: scanstring_def split: option.splits dest: scan_units_consumes)

lemma scan_number_consumes:
  assumes a: "scan_number lim s = Inr (v, rest)"
  shows "length rest < length s"
proof -
  define neg where "neg = (s \<noteq> [] \<and> hd s = CHR ''-'')"
  define s1 where "s1 = (if neg then tl s else s)"
  define ip where "ip = (case s1 of [] \<Rightarrow> [] | c # t \<Rightarrow> if c = CHR ''0'' then [c] else takeWhile is_digit s1)"
  define s2 where "s2 = drop (length ip) s1"
  define fp where "fp = (case s2 of [] \<Rightarrow> [] | c # t \<Rightarrow> if c = CHR ''.'' then takeWhile is_digit t else [])"
  define s3 where "s3 = (if fp = [] then s2 else drop (Suc (length fp)) s2)"
  define s4 where "s4 = (case scan_exp s3 of None \<Rightarrow> s3 | Some (_, r) \<Rightarrow> r)"
  have eq: "scan_number lim s =
     (if ip = [] then Inl JSONDecodeError
      else if fp = [] \<and> scan_exp s3 = None
           then (if 640 < length ip \<and> 0 < lim \<and> lim < length ip then Inl ValueError
                 else Inr (JInt ((if neg then - 1 else 1) * int (digits_val ip)), s4))
           else Inr (JFloat (Decimal ((if neg then - 1 else 1) * int (digits_val (ip @ fp)))
                  ((case scan_exp s3 of None \<Rightarrow> 0 | Some (x, _) \<Rightarrow> x) - int (length fp))), s4))"
    unfolding scan_number_def Let_def neg_def s1_def ip_def s2_def fp_def s3_def s4_def
    by (rule refl)
  from a have ip: "ip \<noteq> []" and rest: "rest = s4"
    unfolding eq by (auto split: if_splits)
  have "length ip \<le> length s1"
    by (auto simp: ip_def length_takeWhile_le split: list.splits)
  with ip have "length s2 < length s1" by (cases ip) (auto simp: s2_def)
  moreover have "length s1 \<le> length s" by (simp add: s1_def)
  moreover have "length s3 \<le> length s2" by (simp add: s3_def)
  moreover have "length s4 \<le> length s3"
    by (auto simp: s4_def split: option.splits dest: scan_exp_length)
  ultimately show ?thesis using rest by simp
qed

lemma skip_ws_Cons: "skip_ws t = c # t' \<Longrightarrow> length t' < length t"
  using skip_ws_length [of t] by simp

lemma consumes_value_step:
  assumes A: "\<And>d acc s v rest. parse_array n d lim acc s = Inr (v, rest) \<Longrightarrow> length rest < length s"
    and O: "\<And>d kvs s v rest. parse_object n d lim kvs s = Inr (v, rest) \<Longrightarrow> length rest < length s"
    and p: "parse_value (Suc n) d lim s = Inr (v, rest)"
  shows "length rest < length s"
proof (cases s)
  case Nil
  with p show ?thesis by simp
next
  case (Cons c t)
  consider (str) "c = CHR 0x22" | (obj) "c \<noteq> CHR 0x22" "c = CHR ''{''"
    | (arr) "c \<noteq> CHR 0x22" "c \<noteq> CHR ''{''" "c = CHR ''[''"
    | (other) "c \<noteq> CHR 0x22" "c \<noteq> CHR ''{''" "c \<noteq> CHR ''[''"
    by blast
  then show ?thesis
  proof cases
    case str
    with p Cons show ?thesis
      by (auto split: option.splits dest: scanstring_consumes)
  next
    case obj
    with p Cons have d: "d \<noteq> 0" by (auto split: if_splits)
    show ?thesis
    proof (cases "skip_ws t")
      case Nil
      with p Cons obj d show ?thesis by simp
    next
      case sk: (Cons c' t')
      show ?thesis
      proof (cases "c' = CHR ''}''")
        case True
        with p Cons obj d sk skip_ws_Cons [OF sk] show ?thesis by auto
      next
        case False
        with p Cons obj d sk have "parse_object n (d - 1) lim [] (c' # t') = Inr (v, rest)"
          by simp
        from O [OF this] skip_ws_length [of t] sk Cons show ?thesis by simp
      qed
    qed
  next
    case arr
    with p Cons have d: "d \<noteq> 0" by (auto split: if_splits)
    show ?thesis
    proof (cases "skip_ws t")
      case Nil
      with p Cons arr d show ?thesis by simp
    next
      case sk: (Cons c' t')
      show ?thesis
      proof (cases "c' = CHR '']''")
        case True
        with p Cons arr d sk skip_ws_Cons [OF sk] show ?thesis by auto
      next
        case False
        with p Cons arr d sk have "parse_array n (d - 1) lim [] (c' # t') = Inr (v, rest)"
          by simp
        from A [OF this] skip_ws_length [of t] sk Cons show ?thesis by simp
      qed
    qed
  next
    case other
    from p Cons other have "length rest \<le> length t \<or> scan_number lim s = Inr (v, rest)"
      by (auto split: if_splits)
    then show ?thesis
    proof
      assume "length rest \<le> length t"
      with Cons show ?thesis by simp
    next
      assume "scan_number lim s = Inr (v, rest)"
      then show ?thesis by (rule scan_number_consumes)
    qed
  qed
qed

lemma consumes_array_step:
  assumes V: "\<And>d s v rest. parse_value n d lim s = Inr (v, rest) \<Longrightarrow> length rest < length s"
    and A: "\<And>d acc s v rest. parse_array n d lim acc s = Inr (v, rest) \<Longrightarrow> length rest < length s"
    and p: "parse_array (Suc n) d lim acc s = Inr (v, rest)"
  shows "length rest < length s"
proof -
  from p obtain v1 r1 where v1: "parse_value n d lim s = Inr (v1, r1)"
    by (auto split: sum.splits)
  from V [OF v1] have l1: "length r1 < length s" .
  from p v1 obtain c t where sk: "skip_ws r1 = c # t"
    by (auto split: list.splits)
  from skip_ws_Cons [OF sk] have l2: "length t < length r1" .
  show ?thesis
  proof (cases "c = CHR '',''")
    case True
    with p v1 sk have "parse_array n d lim (acc @ [v1]) (skip_ws t) = Inr (v, rest)" by simp
    from A [OF this] skip_ws_length [of t] l1 l2 show ?thesis by simp
  next
    case False
    with p v1 sk have "rest = t" by (auto split: if_splits)
    with l1 l2 show ?thesis by simp
  qed
qed

lemma consumes_object_step:
  assumes V: "\<And>d s v rest. parse_value n d lim s = Inr (v, rest) \<Longrightarrow> length rest < length s"
    and O: "\<And>d kvs s v rest. parse_object n d lim kvs s = Inr (v, rest) \<Longrightarrow> length rest < length s"
    and p: "parse_object (Suc n) d lim kvs s = Inr (v, rest)"
  shows "length rest < length s"
proof -
  from p obtain q t where s: "s = q # t" and q: "q = CHR 0x22"
    by (auto split: list.splits if_splits)
  from p s q obtain k r0 where k: "scanstring t = Some (k, r0)"
    by (auto split: option.splits)
  from scanstring_consumes [OF k] have l0: "length r0 < length t" .
  from p s q k obtain c t1 where sk0: "skip_ws r0 = c # t1" and c: "c = CHR '':''"
    by (auto split: list.splits if_splits)
  from skip_ws_Cons [OF sk0] have l1: "length t1 < length r0" .
  from p s q k sk0 c obtain v1 r1 where v1: "parse_value n d lim (skip_ws t1) = Inr (v1, r1)"
    by (auto split: sum.splits)
  from V [OF v1] skip_ws_length [of t1] have l2: "length r1 < length t1" by simp
  from p s q k sk0 c v1 obtain c1 t2 where sk1: "skip_ws r1 = c1 # t2"
    by (auto split: list.splits)
  from skip_ws_Cons [OF sk1] have l3: "length t2 < length r1" .
  show ?thesis
  proof (cases "c1 = CHR '',''")
    case True
    with p s q k sk0 c v1 sk1
    have "parse_object n d lim (dict_set kvs k v1) (skip_ws t2) = Inr (v, rest)" by simp
    from O [OF this] skip_ws_length [of t2] l0 l1 l2 l3 s show ?thesis by simp
  next
    case False
    with p s q k sk0 c v1 sk1 have "rest = t2" by (auto split: if_splits)
    with l0 l1 l2 l3 s show ?thesis by simp
  qed
qed

lemma parse_consumes:
  "(\<forall>d s v rest. parse_value n d lim s = Inr (v, rest) \<longrightarrow> length rest < length s)
   \<and> (\<forall>d acc s v rest. parse_array n d lim acc s = Inr (v, rest) \<longrightarrow> length rest < length s)
   \<and> (\<forall>d kvs s v rest. parse_object n d lim kvs s = Inr (v, rest) \<longrightarrow> length rest < length s)"
proof (induction n)
  case 0
  show ?case by simp
next
  case (Suc n)
  then have V: "\<And>d s v rest. parse_value n d lim s = Inr (v, rest) \<Longrightarrow> length rest < length s"
    and A: "\<And>d acc s v rest. parse_array n d lim acc s = Inr (v, rest) \<Longrightarrow> length rest < length s"
    and O: "\<And>d kvs s v rest. parse_object n d lim kvs s = Inr (v, rest) \<Longrightarrow> length rest < length s"
    by blast+
  show ?case
  proof (intro conjI allI impI)
    fix d s v rest
    assume p: "parse_value (Suc n) d lim s = Inr (v, rest)"
    from A O p show "length rest < length s" by (rule consumes_value_step)
  next
    fix d acc s v rest
    assume p: "parse_array (Suc n) d lim acc s = Inr (v, rest)"
    from V A p show "length rest < length s" by (rule consumes_array_step)
  next
    fix d kvs s v rest
    assume p: "parse_object (Suc n) d lim kvs s = Inr (v, rest)"
    from V O p show "length rest < length s" by (rule consumes_object_step)
  qed
qed

lemma parse_value_consumes:
  "parse_value n d lim s = Inr (v, rest) \<Longrightarrow> length rest < length s"
  using parse_consumes by blast

lemma stable_value_step:
  assumes A: "\<And>d acc x. 2 * length x + 2 \<le> n \<Longrightarrow>
                parse_array (Suc n) d lim acc x = parse_array n d lim acc x"
    and O: "\<And>d kvs x. 2 * length x + 2 \<le> n \<Longrightarrow>
                parse_object (Suc n) d lim kvs x = parse_object n d lim kvs x"
    and b: "2 * length s + 1 \<le> Suc n"
  shows "parse_value (Suc (Suc n)) d lim s = parse_value (Suc n) d lim s"
proof (cases s)
  case Nil
  then show ?thesis by simp
next
  case (Cons c t)
  note [simp del] = parse_array.simps parse_object.simps
  show ?thesis
  proof (cases "skip_ws t")
    case Nil
    with Cons show ?thesis by simp
  next
    case sk: (Cons c' t')
    from skip_ws_length [of t] sk Cons b have "2 * length (c' # t') + 2 \<le> n" by simp
    then have "parse_array (Suc n) (d - 1) lim [] (c' # t') = parse_array n (d - 1) lim [] (c' # t')"
      and "parse_object (Suc n) (d - 1) lim [] (c' # t') = parse_object n (d - 1) lim [] (c' # t')"
      by (rule A, rule O)
    with Cons sk show ?thesis by simp
  qed
qed

lemma stable_array_step:
  assumes V: "\<And>d x. 2 * length x + 1 \<le> n \<Longrightarrow> parse_value (Suc n) d lim x = parse_value n d lim x"
    and A: "\<And>d acc x. 2 * length x + 2 \<le> n \<Longrightarrow>
                parse_array (Suc n) d lim acc x = parse_array n d lim acc x"
    and b: "2 * length s + 2 \<le> Suc n"
  shows "parse_array (Suc (Suc n)) d lim acc s = parse_array (Suc n) d lim acc s"
proof -
  note unfold = parse_array.simps(2) [of "Suc n" d lim acc] parse_array.simps(2) [of n d lim acc]
  note [simp del] = parse_value.simps parse_array.simps
  from b have pv: "parse_value (Suc n) d lim s = parse_value n d lim s" by (intro V) simp
  show ?thesis
  proof (cases "parse_value n d lim s")
    case (Inl e)
    with pv show ?thesis by (simp add: unfold)
  next
    case (Inr r)
    obtain v rest where r: "r = (v, rest)" by (cases r)
    from Inr r have "length rest < length s" by (auto dest: parse_value_consumes)
    have t: "parse_array (Suc n) d lim (acc @ [v]) (skip_ws t) =
             parse_array n d lim (acc @ [v]) (skip_ws t)"
      if "skip_ws rest = c # t" for c t
    proof (rule A)
      from skip_ws_Cons [OF that] skip_ws_length [of t] \<open>length rest < length s\<close> b
      show "2 * length (skip_ws t) + 2 \<le> n" by simp
    qed
    show ?thesis
    proof (cases "skip_ws rest")
      case Nil
      with pv Inr r show ?thesis by (simp add: unfold)
    next
      case (Cons c t)
      with pv Inr r t [OF Cons] show ?thesis by (simp add: unfold)
    qed
  qed
qed

lemma stable_object_step:
  assumes V: "\<And>d x. 2 * length x + 1 \<le> n \<Longrightarrow> parse_value (Suc n) d lim x = parse_value n d lim x"
    and O: "\<And>d kvs x. 2 * length x + 2 \<le> n \<Longrightarrow>
                parse_object (Suc n) d lim kvs x = parse_object n d lim kvs x"
    and b: "2 * length s + 2 \<le> Suc n"
  shows "parse_object (Suc (Suc n)) d lim kvs s = parse_object (Suc n) d lim kvs s"
proof -
  note unfold = parse_object.simps(2) [of "Suc n" d lim kvs] parse_object.simps(2) [of n d lim kvs]
  note [simp del] = parse_value.simps parse_object.simps
  show ?thesis
  proof (cases s)
    case Nil
    then show ?thesis by (simp add: unfold)
  next
    case s: (Cons q t)
    show ?thesis
    proof (cases "scanstring t")
      case None
      with s show ?thesis by (simp add: unfold)
    next
      case (Some kr)
      obtain k r0 where kr: "kr = (k, r0)" by (cases kr)
      from Some kr have l0: "length r0 < length t" by (auto dest: scanstring_consumes)
      show ?thesis
      proof (cases "skip_ws r0")
        case Nil
        with s Some kr show ?thesis by (simp add: unfold)
      next
        case sk0: (Cons c t1)
        from skip_ws_Cons [OF sk0] have l1: "length t1 < length r0" .
        from l0 l1 s b skip_ws_length [of t1]
        have pv: "parse_value (Suc n) d lim (skip_ws t1) = parse_value n d lim (skip_ws t1)"
          by (intro V) simp
        show ?thesis
        proof (cases "parse_value n d lim (skip_ws t1)")
          case (Inl e)
          with s Some kr sk0 pv show ?thesis by (simp add: unfold)
        next
          case v: (Inr vr)
          obtain v1 r1 where vr: "vr = (v1, r1)" by (cases vr)
          from v vr skip_ws_length [of t1] have l2: "length r1 < length t1"
            by (auto dest!: parse_value_consumes)
          show ?thesis
          proof (cases "skip_ws r1")
            case Nil
            with s Some kr sk0 pv v vr show ?thesis by (simp add: unfold)
          next
            case sk1: (Cons c1 t2)
            from skip_ws_Cons [OF sk1] have l3: "length t2 < length r1" .
            from l0 l1 l2 l3 s b skip_ws_length [of t2]
            have "parse_object (Suc n) d lim (dict_set kvs k v1) (skip_ws t2) =
                  parse_object n d lim (dict_set kvs k v1) (skip_ws t2)"
              by (intro O) simp
            with s Some kr sk0 pv v vr sk1 show ?thesis by (simp add: unfold)
          qed
        qed
      qed
    qed
  qed
qed

lemma parse_stable:
  "(\<forall>d s. 2 * length s + 1 \<le> n \<longrightarrow> parse_value (Suc n) d lim s = parse_value n d lim s)
   \<and> (\<forall>d acc s. 2 * length s + 2 \<le> n \<longrightarrow>
         parse_array (Suc n) d lim acc s = parse_array n d lim acc s)
   \<and> (\<forall>d kvs s. 2 * length s + 2 \<le> n \<longrightarrow>
         parse_object (Suc n) d lim kvs s = parse_object n d lim kvs s)"
proof (induction n)
  case 0
  show ?case by simp
next
  case (Suc n)
  then have V: "\<And>d x. 2 * length x + 1 \<le> n \<Longrightarrow> parse_value (Suc n) d lim x = parse_value n d lim x"
    and A: "\<And>d acc x. 2 * length x + 2 \<le> n \<Longrightarrow>
                parse_array (Suc n) d lim acc x = parse_array n d lim acc x"
    and O: "\<And>d kvs x. 2 * length x + 2 \<le> n \<Longrightarrow>
                parse_object (Suc n) d lim kvs x = parse_object n d lim kvs x"
    by blast+
  show ?case
  proof (intro conjI allI impI)
    fix d and s :: string
    assume b: "2 * length s + 1 \<le> Suc n"
    from A O b show "parse_value (Suc (Suc n)) d lim s = parse_value (Suc n) d lim s"
      by (rule stable_value_step)
  next
    fix d acc and s :: string
    assume b: "2 * length s + 2 \<le> Suc n"
    from V A b show "parse_array (Suc (Suc n)) d lim acc s = parse_array (Suc n) d lim acc s"
      by (rule stable_array_step)
  next
    fix d kvs and s :: string
    assume b: "2 * length s + 2 \<le> Suc n"
    from V O b show "parse_object (Suc (Suc n)) d lim kvs s = parse_object (Suc n) d lim kvs s"
      by (rule stable_object_step)
  qed
qed

lemma parse_value_fuel:
  assumes "2 * length s + 1 \<le> n"
  shows "parse_value (n + k) d lim s = parse_value n d lim s"
proof (induction k)
  case 0
  show ?case by simp
next
  case (Suc k)
  from assms have "2 * length s + 1 \<le> n + k" by simp
  with parse_stable [of "n + k" lim]
  have "parse_value (Suc (n + k)) d lim s = parse_value (n + k) d lim s"
    by blast
  with Suc show ?case by simp
qed

lemma json_loads_fuel:
  "json_loads rt s =
     (case parse_value (2 * length s + 2 + k) (nesting_limit rt) (max_str_digits rt) (skip_ws s) of
        Inl e \<Rightarrow> Inl e
      | Inr (v, rest) \<Rightarrow> if skip_ws rest = [] then Inr v else Inl JSONDecodeError)"
proof -
  have "2 * length (skip_ws s) + 1 \<le> 2 * length s + 2"
    using skip_ws_length [of s] by simp
  then have "parse_value (2 * length s + 2 + k) (nesting_limit rt) (max_str_digits rt) (skip_ws s) =
             parse_value (2 * length s + 2) (nesting_limit rt) (max_str_digits rt) (skip_ws s)"
    by (rule parse_value_fuel)
  then show ?thesis by (simp add: json_loads_def)
qed

section \<open>Decoding of concrete payloads\<close>

lemmas markup_defs =
  markup_ok_def tag_start_def tag_name_def tag_parameters_def strip_def
  space1_def space2_def space3_def

lemmas stream_defs =
  print_stream_def parse_stream_line_def is_empty_def decode_def startswith_def
  py_get_def truthy_def get_delta_def py_item_def py_first_def process_delta_def
  get_reasoning_content_def py_in_def process_regular_content_def process_reasoning_content_def
  console_print_def live_update_def cursor_chars_def in_range_def markup_defs

text \<open>
  The two payloads of the smoke test nest four containers and hold no number, so they decode
  on every runtime that allows four levels.
\<close>

lemma loads_hello:
  assumes "4 \<le> nesting_limit rt"
  shows \<open>json_loads rt ''{"choices":[{"delta":{"content":"Hello"}}]}'' =
     Inr (JObj [(''choices'', JArr [JObj [(''delta'', JObj [(''content'', JStr ''Hello'')])]])])\<close>
proof -
  define k where "k = nesting_limit rt - 4"
  with assms have k: "nesting_limit rt = Suc (Suc (Suc (Suc k)))" by simp
  show ?thesis
    by (simp add: json_loads_def k eval_nat_numeral skip_ws_def is_ws_def startswith_def
        scanstring_def escape_char_def)
qed

lemma loads_world:
  assumes "4 \<le> nesting_limit rt"
  shows \<open>json_loads rt ''{"choices":[{"delta":{"content":" World"}}]}'' =
     Inr (JObj [(''choices'', JArr [JObj [(''delta'', JObj [(''content'', JStr '' World'')])]])])\<close>
proof -
  define k where "k = nesting_limit rt - 4"
  with assms have k: "nesting_limit rt = Suc (Suc (Suc (Suc k)))" by simp
  show ?thesis
    by (simp add: json_loads_def k eval_nat_numeral skip_ws_def is_ws_def startswith_def
        scanstring_def escape_char_def)
qed

lemma loads_x:
  \<open>json_loads default_runtime ''{"choices":[{"delta":{"content":"X"}}]}'' =
     Inr (JObj [(''choices'', JArr [JObj [(''delta'', JObj [(''content'', JStr ''X'')])]])])\<close>
  by code_simp

lemma loads_y:
  \<open>json_loads default_runtime ''{"choices":[{"delta":{"content":"Y"}}]}'' =
     Inr (JObj [(''choices'', JArr [JObj [(''delta'', JObj [(''content'', JStr ''Y'')])]])])\<close>
  by code_simp

lemma loads_null: \<open>json_loads default_runtime ''null'' = Inr JNull\<close>
  by code_simp


lemma loads_closing_tag: \<open>json_loads default_runtime ''[/x]'' = Inl JSONDecodeError\<close>
  by code_simp

lemma loads_no_delta:
  \<open>json_loads default_runtime ''{"choices":[{}]}'' = Inr (JObj [(''choices'', JArr [JObj []])])\<close>
  by code_simp

text \<open>
  The sentinel is not JSON for any runtime: the decoder refuses to enter the array when no
  nesting is left, and rejects its first element otherwise.
\<close>

lemma loads_done:
  "json_loads rt ''[DONE]'' =
     Inl (if nesting_limit rt = 0 then RecursionError else JSONDecodeError)"
  by (simp add: json_loads_def eval_nat_numeral skip_ws_def is_ws_def startswith_def
      scan_number_def is_digit_def)

section \<open>Console markup of the two diagnostics\<close>

text \<open>
  The fixed diagnostic is well-formed markup whatever the normal form of \<^verbatim>\<open>red\<close> is: its
  closing tag closes its opening tag.
\<close>

lemma default_normalize: "normalize default_runtime name = name"
  by (simp add: default_runtime_def)

lemma generic_message_ok: "markup_ok rt ''[red]Error decoding response JSON[/red]''"
  by (simp add: markup_defs startswith_def in_range_def)

lemma print_generic_message:
  "console_print rt self ''[red]Error decoding response JSON[/red]'' =
     Inr (self\<lparr>console := console self @ [Print ''[red]Error decoding response JSON[/red]'']\<rparr>)"
  by (simp add: console_print_def generic_message_ok)

section \<open>Skipped lines\<close>

lemma decode_nonempty: "decode l = Inr text \<Longrightarrow> text \<noteq> [] \<Longrightarrow> \<not> is_empty l"
  by (auto simp: decode_def is_empty_def split: line.splits if_splits)

lemma for_lines_skip:
  "parse_stream_line rt self l = (Inr JNull, self') \<Longrightarrow>
   for_lines rt self st (l # ls) = for_lines rt self' st ls"
  by (simp add: truthy_def)

lemma for_lines_append:
  "for_lines rt self st (pre @ post) =
     (case for_lines rt self st pre of
        Inl e \<Rightarrow> Inl e
      | Inr (st', self') \<Rightarrow> for_lines rt self' st' post)"
proof (induction pre arbitrary: self st)
  case Nil
  show ?case by simp
next
  case (Cons l pre)
  show ?case
    by (simp add: Cons.IH split: prod.splits sum.splits)
qed

lemma parse_done:
  assumes "decode l = Inr ''data: [DONE]''"
  shows "parse_stream_line rt self l = (Inr JNull, self)"
proof -
  have "\<not> is_empty l" using assms by (rule decode_nonempty) simp
  then show ?thesis using assms by (simp add: parse_stream_line_def startswith_def)
qed

section \<open>The stream of the smoke test\<close>

text \<open>
  Claim C1. The three lines \<^verbatim>\<open>data: {"choices":[{"delta":{"content":"Hello"}}]}\<close>,
  \<^verbatim>\<open>data: {"choices":[{"delta":{"content":" World"}}]}\<close> and \<^verbatim>\<open>data: [DONE]\<close>, each parsed
  by \<^verbatim>\<open>_parse_stream_line\<close> and folded by \<^verbatim>\<open>_print_stream\<close>, give the answer text
  \<^verbatim>\<open>Hello World\<close>, whether the lines arrive as text or as bytes and whatever the console
  held before. The console gains the heading, one repaint per delta with the alternating
  cursor, and the final repaint without cursor. This holds on every runtime whose
  interpreter lets the decoder enter the four nested containers of a payload.
\<close>

theorem print_stream_hello_world:
  assumes "4 \<le> nesting_limit rt"
  shows \<open>print_stream rt self
      [Str ''data: {"choices":[{"delta":{"content":"Hello"}}]}'',
       Str ''data: {"choices":[{"delta":{"content":" World"}}]}'',
       Str ''data: [DONE]''] =
    Inr (''Hello World'',
         self\<lparr>console := console self @
           [Print ''Assistant:'', Update ''Hello_'', Update ''Hello World '',
            Update ''Hello World'']\<rparr>)
   \<and> print_stream rt self
      [Bytes ''data: {"choices":[{"delta":{"content":"Hello"}}]}'',
       Bytes ''data: {"choices":[{"delta":{"content":" World"}}]}'',
       Bytes ''data: [DONE]''] =
    Inr (''Hello World'',
         self\<lparr>console := console self @
           [Print ''Assistant:'', Update ''Hello_'', Update ''Hello World '',
            Update ''Hello World'']\<rparr>)\<close>
  by (simp add: stream_defs loads_hello [OF assms] loads_world [OF assms])

theorem print_stream_hello_world_witness:
  \<open>4 \<le> nesting_limit default_runtime
   \<and> print_stream default_runtime \<lparr>verbose = False, console = []\<rparr>
      [Str ''data: {"choices":[{"delta":{"content":"Hello"}}]}'',
       Str ''data: {"choices":[{"delta":{"content":" World"}}]}'',
       Str ''data: [DONE]''] =
    Inr (''Hello World'',
         \<lparr>verbose = False,
          console = [Print ''Assistant:'', Update ''Hello_'', Update ''Hello World '',
                     Update ''Hello World'']\<rparr>)
   \<and> print_stream default_runtime \<lparr>verbose = False, console = []\<rparr>
      [Bytes ''data: {"choices":[{"delta":{"content":"Hello"}}]}'',
       Bytes ''data: {"choices":[{"delta":{"content":" World"}}]}'',
       Bytes ''data: [DONE]''] =
    Inr (''Hello World'',
         \<lparr>verbose = False,
          console = [Print ''Assistant:'', Update ''Hello_'', Update ''Hello World '',
                     Update ''Hello World'']\<rparr>)\<close>
proof -
  have h: "4 \<le> nesting_limit default_runtime" by (simp add: default_runtime_def)
  show ?thesis
    using print_stream_hello_world [OF h, of "\<lparr>verbose = False, console = []\<rparr>"] h
    by simp
qed

section \<open>The sentinel\<close>

text \<open>
  Claim C2, as the code has it. A line whose text is \<^verbatim>\<open>data: [DONE]\<close> produces no delta
  and raises no error: \<^verbatim>\<open>_parse_stream_line\<close> returns \<^verbatim>\<open>None\<close> and leaves the console as it
  was, and the loop of \<^verbatim>\<open>_print_stream\<close> goes on to the next line with the buffer, the
  reasoning flag and the cursor unchanged. Decoding does not stop there: the lines after the
  sentinel are processed exactly as if the sentinel line were absent.
\<close>

theorem done_line_is_skipped:
  assumes "decode l = Inr ''data: [DONE]''"
  shows "parse_stream_line rt self l = (Inr JNull, self)
       \<and> for_lines rt self st (l # ls) = for_lines rt self st ls
       \<and> print_stream rt self (pre @ l # ls) = print_stream rt self (pre @ ls)"
proof -
  have p: "\<And>s. parse_stream_line rt s l = (Inr JNull, s)" using assms by (rule parse_done)
  have f: "\<And>s t. for_lines rt s t (l # ls) = for_lines rt s t ls" using p by (rule for_lines_skip)
  have "print_stream rt self (pre @ l # ls) = print_stream rt self (pre @ ls)"
    unfolding print_stream_def for_lines_append by (simp only: f)
  with p f show ?thesis by simp
qed

theorem done_line_is_skipped_witness:
  \<open>decode (Str ''data: [DONE]'') = Inr ''data: [DONE]''
   \<and> print_stream default_runtime \<lparr>verbose = False, console = []\<rparr>
      [Str ''data: {"choices":[{"delta":{"content":"X"}}]}'', Str ''data: [DONE]'',
       Str ''data: {"choices":[{"delta":{"content":"Y"}}]}''] =
    print_stream default_runtime \<lparr>verbose = False, console = []\<rparr>
      [Str ''data: {"choices":[{"delta":{"content":"X"}}]}'',
       Str ''data: {"choices":[{"delta":{"content":"Y"}}]}'']\<close>
proof -
  have d: "decode (Str ''data: [DONE]'') = Inr ''data: [DONE]''" by (simp add: decode_def)
  show ?thesis
    using done_line_is_skipped [OF d, where rt = default_runtime
      and self = "\<lparr>verbose = False, console = []\<rparr>"
      and pre = \<open>[Str ''data: {"choices":[{"delta":{"content":"X"}}]}'']\<close>
      and ls = \<open>[Str ''data: {"choices":[{"delta":{"content":"Y"}}]}'']\<close>] d
    by simp
qed

text \<open>
  A stream that ends at the sentinel returns the empty text; with one more data line after
  the sentinel the returned text is that line's content and the display is repainted for it.
\<close>

theorem done_does_not_stop_counterexample:
  \<open>print_stream default_runtime \<lparr>verbose = False, console = []\<rparr> [Str ''data: [DONE]''] =
     Inr ([], \<lparr>verbose = False, console = [Print ''Assistant:'', Update []]\<rparr>)
   \<and> print_stream default_runtime \<lparr>verbose = False, console = []\<rparr>
       [Str ''data: [DONE]'', Str ''data: {"choices":[{"delta":{"content":"X"}}]}''] =
     Inr (''X'',
          \<lparr>verbose = False, console = [Print ''Assistant:'', Update ''X_'', Update ''X'']\<rparr>)\<close>
  by (simp add: stream_defs loads_x)

section \<open>Malformed payloads\<close>




text \<open>
  In non-verbose mode nothing but the fixed message is printed, so the drop needs no
  condition on the payload.
\<close>

lemma malformed_line_is_dropped_quietly:
  assumes "decode l = Inr (''data: '' @ payload)"
    and "payload \<noteq> ''[DONE]''"
    and "json_loads rt payload = Inl JSONDecodeError"
    and "\<not> verbose self"
  shows "for_lines rt self st (l # ls) =
           for_lines rt
             (self\<lparr>console := console self @ [Print ''[red]Error decoding response JSON[/red]'']\<rparr>)
             st ls"
proof -
  have "\<not> is_empty l" using assms(1) by (rule decode_nonempty) simp
  then have "parse_stream_line rt self l =
      (Inr JNull,
       self\<lparr>console := console self @ [Print ''[red]Error decoding response JSON[/red]'']\<rparr>)"
    using assms by (simp add: parse_stream_line_def startswith_def print_generic_message)
  then show ?thesis by (rule for_lines_skip)
qed

text \<open>
  What the claim leaves open. In verbose mode the payload \<^verbatim>\<open>[/x]\<close> is rejected by the decoder
  and then by the console: quoted in the second message it is a closing tag that closes
  nothing, \<^verbatim>\<open>console.print\<close> raises \<^verbatim>\<open>MarkupError\<close> inside the handler, and the data line
  that follows is never decoded. A payload nested deeper than the interpreter allows, or
  with an integer of more digits than it converts, raises \<^verbatim>\<open>RecursionError\<close> or
  \<^verbatim>\<open>ValueError\<close>, which the handler does not catch.
\<close>

lemma verbose_closing_tag_raises:
  \<open>print_stream default_runtime \<lparr>verbose = True, console = []\<rparr>
      [Str ''data: [/x]'', Str ''data: {"choices":[{"delta":{"content":"X"}}]}''] =
    Inl MarkupError\<close>
  by (simp add: stream_defs loads_closing_tag default_normalize)

lemma other_decoder_errors_leave:
  assumes "decode l = Inr (''data: '' @ payload)"
    and "payload \<noteq> ''[DONE]''"
    and "json_loads rt payload = Inl e"
    and "e \<noteq> JSONDecodeError"
  shows "parse_stream_line rt self l = (Inl e, self) \<and> for_lines rt self st (l # ls) = Inl e"
proof -
  have "\<not> is_empty l" using assms(1) by (rule decode_nonempty) simp
  then have "parse_stream_line rt self l = (Inl e, self)"
    using assms by (simp add: parse_stream_line_def startswith_def)
  then show ?thesis by simp
qed

text \<open>
  On a runtime that allows two nested containers, the payload \<^verbatim>\<open>[[[1]]]\<close> raises
  \<^verbatim>\<open>RecursionError\<close> and the stream ends there.
\<close>

lemma deep_nesting_raises:
  \<open>json_loads (default_runtime\<lparr>nesting_limit := 2\<rparr>) ''[[[1]]]'' = Inl RecursionError
   \<and> print_stream (default_runtime\<lparr>nesting_limit := 2\<rparr>) \<lparr>verbose = False, console = []\<rparr>
      [Str ''data: [[[1]]]'', Str ''data: {"choices":[{"delta":{"content":"X"}}]}''] =
    Inl RecursionError\<close>
  by code_simp

section \<open>Payloads without a delta\<close>

text \<open>
  Claim C5. The payload \<^verbatim>\<open>{"choices":[{}]}\<close> parses as JSON and its first choice has no
  \<^verbatim>\<open>delta\<close> field. The line is not skipped: \<^verbatim>\<open>json_data["choices"][0]["delta"]\<close> raises
  \<^verbatim>\<open>KeyError\<close>, which leaves \<^verbatim>\<open>_print_stream\<close>, and the data line that follows is never
  decoded.
\<close>

theorem missing_delta_raises:
  \<open>print_stream default_runtime \<lparr>verbose = False, console = []\<rparr>
      [Str ''data: {"choices":[{}]}'',
       Str ''data: {"choices":[{"delta":{"content":"X"}}]}''] = Inl KeyError\<close>
  by (simp add: stream_defs loads_no_delta)

text \<open>
  A payload that is valid JSON but not an object has no \<^verbatim>\<open>get\<close> method: the lookup of
  \<^verbatim>\<open>choices\<close> raises \<^verbatim>\<open>AttributeError\<close> inside the \<^verbatim>\<open>try\<close> block, which only catches
  \<^verbatim>\<open>JSONDecodeError\<close>.
\<close>

lemma non_object_payload_raises:
  \<open>print_stream default_runtime \<lparr>verbose = False, console = []\<rparr>
      [Str ''data: null'', Str ''data: {"choices":[{"delta":{"content":"X"}}]}''] =
    Inl AttributeError\<close>
  by (simp add: stream_defs loads_null)

text \<open>
  What the claim says does hold for the other two shapes it names: a payload that is a JSON
  object without the key \<^verbatim>\<open>choices\<close>, or with a \<^verbatim>\<open>choices\<close> value that is empty (or false in
  any other way), is skipped without a message.
\<close>

lemma no_choices_is_skipped:
  assumes "decode l = Inr (''data: '' @ payload)"
    and "json_loads rt payload = Inr (JObj d)"
    and "map_of d ''choices'' = None \<or> (\<exists>c. map_of d ''choices'' = Some c \<and> \<not> truthy c)"
  shows "parse_stream_line rt self l = (Inr JNull, self)"
proof -
  have "\<not> is_empty l" using assms(1) by (rule decode_nonempty) simp
  moreover have "payload \<noteq> ''[DONE]''"
    using assms(2) loads_done [of rt] by auto
  ultimately show ?thesis
    using assms by (auto simp: parse_stream_line_def startswith_def py_get_def truthy_def)
qed

section \<open>The accumulator\<close>

lemma replace_newline_append: "replace_newline (a @ b) = replace_newline a @ replace_newline b"
  by (simp add: replace_newline_def)

lemma replace_newline_Cons:
  "replace_newline (c # s) = (if c = CHR ''\<newline>'' then ''\<newline>> '' else [c]) @ replace_newline s"
  by (simp add: replace_newline_def)

lemma replace_newline_plain: "CHR ''\<newline>'' \<notin> set s \<Longrightarrow> replace_newline s = s"
  by (induction s) (auto simp: replace_newline_def)

text \<open>
  Claim C3. From the initial state (empty buffer, not in reasoning), a delta whose reasoning
  text is \<open>r\<close> followed by a delta without reasoning text whose content is \<open>c\<close> gives the
  buffer made of the quoted block (the header \<^verbatim>\<open>> Reasoning:\<close>, a line break, the quote prefix
  and the reasoning text with its line breaks re-prefixed), then a blank line, then \<open>c\<close>; the
  reasoning flag is false at the end.
\<close>

theorem reasoning_then_content:
  assumes "get_reasoning_content d1 = Inr (JStr r)"
    and "get_reasoning_content d2 = Inr JNull"
    and "py_get d2 ''content'' (JStr []) = Inr (JStr c)"
  shows "process_delta d1 ([], False) = Inr (''> Reasoning:\<newline>> '' @ replace_newline r, True)
       \<and> process_delta d2 (''> Reasoning:\<newline>> '' @ replace_newline r, True) =
           Inr (''> Reasoning:\<newline>> '' @ replace_newline r @ ''\<newline>\<newline>'' @ c, False)"
  using assms
  by (simp add: process_delta_def process_reasoning_content_def process_regular_content_def
      truthy_def)

theorem reasoning_then_content_witness:
  "get_reasoning_content (JObj [(''reasoning_content'', JStr ''a\<newline>b'')]) = Inr (JStr ''a\<newline>b'')
   \<and> get_reasoning_content (JObj [(''content'', JStr ''Hi'')]) = Inr JNull
   \<and> py_get (JObj [(''content'', JStr ''Hi'')]) ''content'' (JStr []) = Inr (JStr ''Hi'')
   \<and> process_delta (JObj [(''reasoning_content'', JStr ''a\<newline>b'')]) ([], False) =
       Inr (''> Reasoning:\<newline>> a\<newline>> b'', True)
   \<and> process_delta (JObj [(''content'', JStr ''Hi'')]) (''> Reasoning:\<newline>> a\<newline>> b'', True) =
       Inr (''> Reasoning:\<newline>> a\<newline>> b\<newline>\<newline>Hi'', False)"
proof -
  have a: "get_reasoning_content (JObj [(''reasoning_content'', JStr ''a\<newline>b'')]) = Inr (JStr ''a\<newline>b'')"
    by (simp add: get_reasoning_content_def py_in_def py_item_def)
  have b: "get_reasoning_content (JObj [(''content'', JStr ''Hi'')]) = Inr JNull"
    by (simp add: get_reasoning_content_def py_in_def py_item_def)
  have c: "py_get (JObj [(''content'', JStr ''Hi'')]) ''content'' (JStr []) = Inr (JStr ''Hi'')"
    by (simp add: py_get_def)
  show ?thesis
    using reasoning_then_content [OF a b c] a b c
    by (simp add: replace_newline_def)
qed

text \<open>
  Claim C6, as the code has it. A delta with neither reasoning text nor content (the content
  missing, \<^verbatim>\<open>null\<close>, empty or otherwise false) leaves the buffer unchanged when the
  accumulator is not in reasoning. When it is in reasoning, the delta closes the quoted
  block: the buffer gains the blank-line separator and the flag becomes false.
\<close>

theorem empty_delta_effect:
  assumes "get_reasoning_content delta = Inr JNull"
    and "py_get delta ''content'' (JStr []) = Inr c"
    and "\<not> truthy c"
  shows "process_delta delta (full, in_r) =
           Inr (if in_r then full @ ''\<newline>\<newline>'' else full, False)"
  using assms
  by (simp add: process_delta_def process_regular_content_def)

theorem empty_delta_effect_witness:
  "get_reasoning_content (JObj [(''content'', JNull)]) = Inr JNull
   \<and> py_get (JObj [(''content'', JNull)]) ''content'' (JStr []) = Inr JNull
   \<and> \<not> truthy JNull
   \<and> process_delta (JObj [(''content'', JNull)]) (''answer'', False) = Inr (''answer'', False)"
proof -
  have a: "get_reasoning_content (JObj [(''content'', JNull)]) = Inr JNull"
    by (simp add: get_reasoning_content_def py_in_def py_item_def)
  have b: "py_get (JObj [(''content'', JNull)]) ''content'' (JStr []) = Inr JNull"
    by (simp add: py_get_def)
  have c: "\<not> truthy JNull" by (simp add: truthy_def)
  show ?thesis
    using empty_delta_effect [OF a b c, of "''answer''" False] a b c by simp
qed

text \<open>
  The empty delta \<^verbatim>\<open>{}\<close> in reasoning mode: the buffer after the delta is not the buffer
  before it.
\<close>

theorem empty_delta_closes_reasoning_counterexample:
  "get_reasoning_content (JObj []) = Inr JNull
   \<and> py_get (JObj []) ''content'' (JStr []) = Inr (JStr [])
   \<and> process_delta (JObj []) (''> Reasoning:\<newline>> hm'', True) =
       Inr (''> Reasoning:\<newline>> hm\<newline>\<newline>'', False)
   \<and> ''> Reasoning:\<newline>> hm\<newline>\<newline>'' \<noteq> ''> Reasoning:\<newline>> hm''"
  by (simp add: get_reasoning_content_def py_in_def py_item_def py_get_def process_delta_def
      process_regular_content_def truthy_def)

text \<open>
  Claim C7. When the accumulator is not in reasoning and the buffer already holds text, a
  delta with reasoning text \<open>r\<close> replaces the whole buffer by the header followed by the
  re-prefixed reasoning text: nothing of the earlier buffer is kept.
\<close>

theorem reasoning_discards_answer:
  assumes "get_reasoning_content delta = Inr (JStr r)"
    and "full \<noteq> []"
  shows "process_delta delta (full, False) =
           Inr (''> Reasoning:\<newline>> '' @ replace_newline r, True)"
  using assms(1)
  by (simp add: process_delta_def process_reasoning_content_def)

theorem reasoning_discards_answer_witness:
  "get_reasoning_content (JObj [(''reasoning'', JStr ''hm'')]) = Inr (JStr ''hm'')
   \<and> ''answer'' \<noteq> []
   \<and> process_delta (JObj [(''reasoning'', JStr ''hm'')]) (''answer'', False) =
       Inr (''> Reasoning:\<newline>> hm'', True)"
proof -
  have a: "get_reasoning_content (JObj [(''reasoning'', JStr ''hm'')]) = Inr (JStr ''hm'')"
    by (simp add: get_reasoning_content_def py_in_def py_item_def)
  have b: "''answer'' \<noteq> []" by simp
  show ?thesis
    using reasoning_discards_answer [OF a b] a by (simp add: replace_newline_def)
qed

text \<open>
  Claim C8. On a dictionary, \<^verbatim>\<open>get_reasoning_content\<close> returns the value under
  \<^verbatim>\<open>reasoning_content\<close> when that key is present, else the value under \<^verbatim>\<open>reasoning\<close> when
  that key is present, else \<^verbatim>\<open>None\<close>. When neither key is present the delta takes the
  answer-content branch: its content (or the empty text) is appended by
  \<^verbatim>\<open>_process_regular_content\<close>.
\<close>

theorem reasoning_key_order:
  "get_reasoning_content (JObj d) =
     Inr (case map_of d ''reasoning_content'' of
            Some v \<Rightarrow> v
          | None \<Rightarrow> (case map_of d ''reasoning'' of Some v \<Rightarrow> v | None \<Rightarrow> JNull))
   \<and> (map_of d ''reasoning_content'' = None \<and> map_of d ''reasoning'' = None \<longrightarrow>
        process_delta (JObj d) acc =
          (case (case map_of d ''content'' of
                   None \<Rightarrow> JStr []
                 | Some c \<Rightarrow> if truthy c then c else JStr []) of
             JStr txt \<Rightarrow> Inr (process_regular_content txt (fst acc) (snd acc))
           | _ \<Rightarrow> Inl TypeError))"
  by (auto simp: get_reasoning_content_def py_in_def py_item_def process_delta_def py_get_def
      truthy_def split: option.splits)

theorem reasoning_key_order_witness:
  "map_of [(''content'', JStr ''Hi'')] ''reasoning_content'' = None
   \<and> map_of [(''content'', JStr ''Hi'')] ''reasoning'' = None
   \<and> get_reasoning_content (JObj [(''content'', JStr ''Hi'')]) = Inr JNull
   \<and> process_delta (JObj [(''content'', JStr ''Hi'')]) (''a'', False) = Inr (''aHi'', False)"
  using reasoning_key_order [of "[(''content'', JStr ''Hi'')]" "(''a'', False)"]
  by (simp add: process_regular_content_def truthy_def)

text \<open>
  Claim C9. When the accumulator is already in reasoning, a delta with reasoning text \<open>r\<close>
  appends \<open>r\<close> with every line break followed by the quote prefix, adds no header, and leaves
  the flag true.
\<close>

theorem reasoning_continues:
  assumes "get_reasoning_content delta = Inr (JStr r)"
  shows "process_delta delta (full, True) = Inr (full @ replace_newline r, True)"
  using assms
  by (simp add: process_delta_def process_reasoning_content_def)

theorem reasoning_continues_witness:
  "get_reasoning_content (JObj [(''reasoning_content'', JStr ''c\<newline>d'')]) = Inr (JStr ''c\<newline>d'')
   \<and> process_delta (JObj [(''reasoning_content'', JStr ''c\<newline>d'')]) (''> Reasoning:\<newline>> ab'', True) =
       Inr (''> Reasoning:\<newline>> abc\<newline>> d'', True)"
proof -
  have a: "get_reasoning_content (JObj [(''reasoning_content'', JStr ''c\<newline>d'')]) = Inr (JStr ''c\<newline>d'')"
    by (simp add: get_reasoning_content_def py_in_def py_item_def)
  show ?thesis
    using reasoning_continues [OF a, of "''> Reasoning:\<newline>> ab''"] a
    by (simp add: replace_newline_def)
qed

section \<open>The chat store: saving and loading by title\<close>

text \<open>
  The timestamp of a file name consists of digits and one dash, so the first separator
  \<^verbatim>\<open>-title-\<close> of an encoded name is the one the encoder wrote, whatever the title contains.
\<close>

lemma pad_digits: "c \<in> set (pad w n) \<Longrightarrow> is_digit c"
proof (induction w arbitrary: n)
  case 0
  then show ?case by simp
next
  case (Suc w)
  have "is_digit (char_of (48 + n mod 10))"
    by (simp add: is_digit_def) 
  with Suc show ?case by auto
qed

lemma split_first_separator:
  assumes "\<forall>c \<in> set l. is_digit c \<or> c = CHR ''-''"
  shows "split_first ''-title-'' (l @ ''-title-'' @ r) = Some (l, r)"
  using assms
proof (induction l)
  case Nil
  show ?case by (simp add: startswith_def)
next
  case (Cons c l)
  have "\<not> startswith ((c # l) @ ''-title-'' @ r) ''-title-''"
  proof (cases l)
    case Nil
    then show ?thesis by (simp add: startswith_def)
  next
    case (Cons d l')
    with Cons.prems have "is_digit d \<or> d = CHR ''-''" by simp
    then have "d \<noteq> CHR ''t''" by (auto simp: is_digit_def)
    with Cons show ?thesis by (simp add: startswith_def)
  qed
  with Cons show ?case by simp
qed

lemma stem_json: "stem (x @ ''.json'') = x"
  by (simp add: stem_def)

lemma unslug_slug: "CHR ''_'' \<notin> set t \<Longrightarrow> unslug (slug t) = t"
  by (induction t) (auto simp: slug_def unslug_def)

lemma find_unique:
  assumes "x \<in> set xs" and "P x" and "\<forall>y \<in> set xs. P y \<longrightarrow> y = x"
  shows "find P xs = Some x"
  using assms
proof (induction xs)
  case Nil
  then show ?case by simp
next
  case (Cons a xs)
  show ?case
  proof (cases "P a")
    case True
    with Cons.prems(3) have "a = x" by simp
    with True show ?thesis by simp
  next
    case False
    with Cons.prems(1,2) have "x \<in> set xs" by auto
    moreover from Cons.prems(3) have "\<forall>y \<in> set xs. P y \<longrightarrow> y = x" by simp
    ultimately have "find P xs = Some x" using Cons.prems(2) Cons.IH by blast
    with False show ?thesis by simp
  qed
qed

lemma evict_subset: "set (evict cap written fs) \<subseteq> set fs"
  by (auto simp: evict_def Let_def)

lemma format_timestamp_chars:
  "c \<in> set (format_timestamp ts) \<Longrightarrow> is_digit c \<or> c = CHR ''-''"
  by (auto simp: format_timestamp_def dest: pad_digits)

lemma evict_keeps_written:
  assumes "(written, f) \<in> set fs"
  shows "(written, f) \<in> set (evict cap written fs)"
proof -
  let ?cands = "sort_key (\<lambda>p. mtime (snd p)) (filter (\<lambda>p. fst p \<noteq> written) fs)"
  have "written \<notin> fst ` set ?cands" by auto
  then have "written \<notin> set (map fst (take (length fs - cap) ?cands))"
    by (auto dest: in_set_takeD)
  with assms show ?thesis
    by (simp add: evict_def Let_def)
qed

lemma decode_encode_title:
  assumes "CHR ''_'' \<notin> set t"
  shows "info_title (decode_filename (encode t ts) i) = t"
proof -
  have "stem (encode t ts) = format_timestamp ts @ ''-title-'' @ slug t"
    using stem_json [of "format_timestamp ts @ ''-title-'' @ slug t"]
    by (simp add: encode_def)
  moreover have "split_first ''-title-'' (format_timestamp ts @ ''-title-'' @ slug t) =
      Some (format_timestamp ts, slug t)"
    by (rule split_first_separator) (auto dest: format_timestamp_chars)
  ultimately show ?thesis
    using assms by (simp add: decode_filename_def unslug_slug)
qed

text \<open>
  Claim C10, on the store as the specification describes it. For every non-empty history
  and every title without an underscore, a save that succeeds returns the title, and loading
  by the returned title gives the session with exactly the saved history, in the saved
  order. This holds for any directory contents before the save and any cap on the number of
  saved chats.
\<close>

theorem save_then_load_by_title:
  assumes "h \<noteq> []"
    and "CHR ''_'' \<notin> set t"
    and "save_chat store e h (Some t) = Inr (t', store')"
  shows "t' = t \<and> load_chat_by_title store' t' = Some \<lparr>title = t, history = h\<rparr>"
proof -
  let ?name = "encode t (now e)"
  let ?new = "\<lparr>mtime = unix_time e,
               body = Stored \<lparr>file_title = t,
                              file_date = show_date (format_timestamp (now e)),
                              file_history = h\<rparr>\<rparr>"
  let ?kept = "filter (\<lambda>p. info_title (decode_filename (fst p) 0) \<noteq> t) (files store)"
  let ?written = "filter (\<lambda>p. fst p \<noteq> ?name) ?kept @ [(?name, ?new)]"
  let ?P = "\<lambda>p. info_title (decode_filename (fst p) 0) = t"
  from assms(1,3) have ok: "write_ok e"
    by (auto simp: save_chat_def Let_def split: if_splits)
  with assms(1,3) have t': "t' = t"
    and store': "store' = store\<lparr>files := evict (max_saved_chats store) ?name ?written\<rparr>"
    by (auto simp: save_chat_def Let_def)
  have title: "?P (?name, ?new)"
    using decode_encode_title [OF assms(2)] by simp
  have mem: "(?name, ?new) \<in> set (listing store')"
    using evict_keeps_written [of ?name ?new ?written]
    by (simp add: listing_def store')
  have uniq: "\<forall>y \<in> set (listing store'). ?P y \<longrightarrow> y = (?name, ?new)"
  proof (intro ballI impI)
    fix y
    assume "y \<in> set (listing store')" and "?P y"
    then have "y \<in> set ?written"
      using evict_subset [of "max_saved_chats store" ?name ?written]
      by (auto simp: listing_def store')
    with \<open>?P y\<close> show "y = (?name, ?new)" by auto
  qed
  have "find ?P (listing store') = Some (?name, ?new)"
    using mem title uniq by (rule find_unique)
  then show ?thesis
    by (simp add: load_chat_by_title_def t')
qed

theorem save_then_load_by_title_witness:
  "[\<lparr>role = ''user'', content = ''Hello''\<rparr>, \<lparr>role = ''assistant'', content = ''Hi there!''\<rparr>] \<noteq> []
   \<and> CHR ''_'' \<notin> set ''Test Chat''
   \<and> save_chat
        \<lparr>files =
           [(''20230101-000000-title-Old.json'',
             \<lparr>mtime = 1, body = Stored \<lparr>file_title = ''Old'', file_date = ''2023-01-01 00:00'',
                                         file_history = [\<lparr>role = ''user'', content = ''x''\<rparr>]\<rparr>\<rparr>),
            (''20230102-000000-title-Test_Chat.json'',
             \<lparr>mtime = 2, body = Stored \<lparr>file_title = ''Test Chat'', file_date = ''2023-01-02 00:00'',
                                         file_history = [\<lparr>role = ''user'', content = ''y''\<rparr>]\<rparr>\<rparr>)],
         max_saved_chats = 1\<rparr>
        \<lparr>now = \<lparr>year = 2023, month = 4, day = 1, hour = 12, minute = 0, second = 0\<rparr>,
         unix_time = 3, write_ok = True\<rparr>
        [\<lparr>role = ''user'', content = ''Hello''\<rparr>, \<lparr>role = ''assistant'', content = ''Hi there!''\<rparr>]
        (Some ''Test Chat'') =
       Inr (''Test Chat'',
            \<lparr>files =
               [(''20230401-120000-title-Test_Chat.json'',
                 \<lparr>mtime = 3,
                  body = Stored \<lparr>file_title = ''Test Chat'', file_date = ''2023-04-01 12:00'',
                                 file_history =
                                   [\<lparr>role = ''user'', content = ''Hello''\<rparr>,
                                    \<lparr>role = ''assistant'', content = ''Hi there!''\<rparr>]\<rparr>\<rparr>)],
             max_saved_chats = 1\<rparr>)
   \<and> load_chat_by_title
        \<lparr>files =
           [(''20230401-120000-title-Test_Chat.json'',
             \<lparr>mtime = 3,
              body = Stored \<lparr>file_title = ''Test Chat'', file_date = ''2023-04-01 12:00'',
                             file_history =
                               [\<lparr>role = ''user'', content = ''Hello''\<rparr>,
                                \<lparr>role = ''assistant'', content = ''Hi there!''\<rparr>]\<rparr>\<rparr>)],
         max_saved_chats = 1\<rparr>
        ''Test Chat'' =
       Some \<lparr>title = ''Test Chat'',
             history = [\<lparr>role = ''user'', content = ''Hello''\<rparr>,
                        \<lparr>role = ''assistant'', content = ''Hi there!''\<rparr>]\<rparr>"
proof -
  have a: "[\<lparr>role = ''user'', content = ''Hello''\<rparr>, \<lparr>role = ''assistant'', content = ''Hi there!''\<rparr>] \<noteq> []"
    by simp
  have b: "CHR ''_'' \<notin> set ''Test Chat''" by simp
  have c: "save_chat
        \<lparr>files =
           [(''20230101-000000-title-Old.json'',
             \<lparr>mtime = 1, body = Stored \<lparr>file_title = ''Old'', file_date = ''2023-01-01 00:00'',
                                         file_history = [\<lparr>role = ''user'', content = ''x''\<rparr>]\<rparr>\<rparr>),
            (''20230102-000000-title-Test_Chat.json'',
             \<lparr>mtime = 2, body = Stored \<lparr>file_title = ''Test Chat'', file_date = ''2023-01-02 00:00'',
                                         file_history = [\<lparr>role = ''user'', content = ''y''\<rparr>]\<rparr>\<rparr>)],
         max_saved_chats = 1\<rparr>
        \<lparr>now = \<lparr>year = 2023, month = 4, day = 1, hour = 12, minute = 0, second = 0\<rparr>,
         unix_time = 3, write_ok = True\<rparr>
        [\<lparr>role = ''user'', content = ''Hello''\<rparr>, \<lparr>role = ''assistant'', content = ''Hi there!''\<rparr>]
        (Some ''Test Chat'') =
       Inr (''Test Chat'',
            \<lparr>files =
               [(''20230401-120000-title-Test_Chat.json'',
                 \<lparr>mtime = 3,
                  body = Stored \<lparr>file_title = ''Test Chat'', file_date = ''2023-04-01 12:00'',
                                 file_history =
                                   [\<lparr>role = ''user'', content = ''Hello''\<rparr>,
                                    \<lparr>role = ''assistant'', content = ''Hi there!''\<rparr>]\<rparr>\<rparr>)],
             max_saved_chats = 1\<rparr>)"
    by code_simp
  show ?thesis
    using save_then_load_by_title [OF a b c] a b c by simp
qed

text \<open>
  A title with an underscore is written to the file name unchanged and read back from it
  with a space in place of the underscore, so the title that the save returned finds no
  session.
\<close>

theorem underscore_title_counterexample:
  "save_chat \<lparr>files = [], max_saved_chats = 10\<rparr>
      \<lparr>now = \<lparr>year = 2023, month = 4, day = 1, hour = 12, minute = 0, second = 0\<rparr>,
       unix_time = 3, write_ok = True\<rparr>
      [\<lparr>role = ''user'', content = ''Hello''\<rparr>] (Some ''a_b'') =
     Inr (''a_b'',
          \<lparr>files =
             [(''20230401-120000-title-a_b.json'',
               \<lparr>mtime = 3,
                body = Stored \<lparr>file_title = ''a_b'', file_date = ''2023-04-01 12:00'',
                               file_history = [\<lparr>role = ''user'', content = ''Hello''\<rparr>]\<rparr>\<rparr>)],
           max_saved_chats = 10\<rparr>)
   \<and> load_chat_by_title
       \<lparr>files =
          [(''20230401-120000-title-a_b.json'',
            \<lparr>mtime = 3,
             body = Stored \<lparr>file_title = ''a_b'', file_date = ''2023-04-01 12:00'',
                            file_history = [\<lparr>role = ''user'', content = ''Hello''\<rparr>]\<rparr>\<rparr>)],
        max_saved_chats = 10\<rparr>
       ''a_b'' = None"
  by code_simp

end
